theory Spec2Isabelle
  imports Complex_Main "HOL-Library.AList" "HOL-Library.Char_ord" "HOL-Library.List_Lexorder"
begin

section \<open>JavaScript values\<close>

text \<open>
  The status bot is duck-typed JavaScript working on values that come out of
  \<^verbatim>\<open>JSON.parse\<close> (stored entries, LLM completions, dynamic configuration).
  A value is therefore modelled as a JSON tree. Numbers are mathematical reals
  (no \<^verbatim>\<open>NaN\<close>, no rounding: JSON has no \<^verbatim>\<open>NaN\<close>, and the arithmetic of the
  code is a handful of divisions by constants). Strings are lists of 8-bit
  characters. An object is an association list in property order.
  \<open>JNative\<close> stands for a built-in function or object that a property lookup
  can reach through \<^verbatim>\<open>Object.prototype\<close>.
\<close>

datatype jsval =
    JUndefined
  | JNull
  | JBool bool
  | JNum real
  | JStr string
  | JArr "jsval list"
  | JObj "(string \<times> jsval) list"
  | JNative string

datatype js_error = TypeError | Error string

text \<open>\<^verbatim>\<open>!!v\<close>\<close>

fun truthy :: "jsval \<Rightarrow> bool" where
  "truthy JUndefined = False"
| "truthy JNull = False"
| "truthy (JBool b) = b"
| "truthy (JNum x) = (x \<noteq> 0)"
| "truthy (JStr s) = (s \<noteq> [])"
| "truthy (JArr xs) = True"
| "truthy (JObj kvs) = True"
| "truthy (JNative n) = True"

fun nullish :: "jsval \<Rightarrow> bool" where
  "nullish JUndefined = True"
| "nullish JNull = True"
| "nullish v = False"

text \<open>\<^verbatim>\<open>a || b\<close>\<close>

definition js_or :: "jsval \<Rightarrow> jsval \<Rightarrow> jsval" where
  "js_or a b = (if truthy a then a else b)"

text \<open>
  \<^verbatim>\<open>v.k\<close> for a \<open>v\<close> that is not \<^verbatim>\<open>null\<close> or \<^verbatim>\<open>undefined\<close>. None of the
  property names the code reads (\<^verbatim>\<open>name\<close>, \<^verbatim>\<open>level\<close>, \<^verbatim>\<open>relevance_score\<close>, ...)
  exists on a string, a number, a boolean or an array, so only objects answer.
\<close>

fun js_prop :: "jsval \<Rightarrow> string \<Rightarrow> jsval" where
  "js_prop (JObj kvs) k = (case map_of kvs k of None \<Rightarrow> JUndefined | Some v \<Rightarrow> v)"
| "js_prop v k = JUndefined"

text \<open>\<^verbatim>\<open>v.k\<close> for any \<open>v\<close>: reading a property of \<^verbatim>\<open>null\<close> or \<^verbatim>\<open>undefined\<close> throws.\<close>

definition get_prop :: "jsval \<Rightarrow> string \<Rightarrow> js_error + jsval" where
  "get_prop v k = (if nullish v then Inl TypeError else Inr (js_prop v k))"

fun nat_to_string :: "nat \<Rightarrow> string" where
  "nat_to_string n =
     (if n < 10 then [''0123456789'' ! n]
      else nat_to_string (n div 10) @ [''0123456789'' ! (n mod 10)])"

declare nat_to_string.simps [simp del]

text \<open>
  The own enumerable properties that \<^verbatim>\<open>{...v}\<close> copies: those of an object, the
  indices of an array or of a string, nothing for any other value.
\<close>

fun spread :: "jsval \<Rightarrow> (string \<times> jsval) list" where
  "spread (JObj kvs) = kvs"
| "spread (JArr xs) = zip (map nat_to_string [0..<length xs]) xs"
| "spread (JStr s) = zip (map nat_to_string [0..<length s]) (map (\<lambda>c. JStr [c]) s)"
| "spread v = []"

text \<open>
  \<^verbatim>\<open>{...v, k: x}\<close> and \<^verbatim>\<open>o.k = x\<close> on a fresh object: an existing property keeps
  its place, a new one goes last.
\<close>

definition set_prop :: "string \<Rightarrow> jsval \<Rightarrow> (string \<times> jsval) list \<Rightarrow> (string \<times> jsval) list" where
  "set_prop k x kvs = AList.update k x kvs"

definition bindE :: "'e + 'a \<Rightarrow> ('a \<Rightarrow> 'e + 'b) \<Rightarrow> 'e + 'b" where
  "bindE m f = (case m of Inl e \<Rightarrow> Inl e | Inr x \<Rightarrow> f x)"

text \<open>\<^verbatim>\<open>xs.map(f)\<close> where the callback may throw: the first exception ends the loop.\<close>

fun mapE :: "('a \<Rightarrow> 'e + 'b) \<Rightarrow> 'a list \<Rightarrow> 'e + 'b list" where
  "mapE f [] = Inr []"
| "mapE f (x # xs) =
     (case f x of Inl e \<Rightarrow> Inl e
      | Inr y \<Rightarrow> (case mapE f xs of Inl e \<Rightarrow> Inl e | Inr ys \<Rightarrow> Inr (y # ys)))"

text \<open>
  \<^verbatim>\<open>(v || []).map(f)\<close>: a falsy \<open>v\<close> is the empty array; a truthy value that is
  not an array has no \<^verbatim>\<open>map\<close> method, and the call throws.
\<close>

definition mapOrEmpty :: "(jsval \<Rightarrow> js_error + jsval) \<Rightarrow> jsval \<Rightarrow> js_error + jsval list" where
  "mapOrEmpty f v =
     (if \<not> truthy v then Inr []
      else case v of JArr xs \<Rightarrow> mapE f xs | _ \<Rightarrow> Inl TypeError)"

definition lower_char :: "char \<Rightarrow> char" where
  "lower_char c =
     (case map_of (zip ''ABCDEFGHIJKLMNOPQRSTUVWXYZ'' ''abcdefghijklmnopqrstuvwxyz'') c of
        None \<Rightarrow> c | Some d \<Rightarrow> d)"

definition toLowerCase :: "string \<Rightarrow> string" where
  "toLowerCase s = map lower_char s"

definition startsWith :: "string \<Rightarrow> string \<Rightarrow> bool" where
  "startsWith s t = (take (length t) s = t)"

text \<open>\<^verbatim>\<open>s.includes(t)\<close>\<close>

fun js_includes :: "string \<Rightarrow> string \<Rightarrow> bool" where
  "js_includes [] t = (t = [])"
| "js_includes (c # cs) t = (startsWith (c # cs) t \<or> js_includes cs t)"

text \<open>
  \<^verbatim>\<open>v.k?.toLowerCase()\<close>: \<open>v\<close> itself must not be nullish; a nullish property
  gives \<^verbatim>\<open>undefined\<close>; a string is lowered; any other value has no such method.
\<close>

definition optLowerCase :: "jsval \<Rightarrow> string \<Rightarrow> js_error + jsval" where
  "optLowerCase v k =
     (if nullish v then Inl TypeError
      else case js_prop v k of
             JUndefined \<Rightarrow> Inr JUndefined
           | JNull \<Rightarrow> Inr JUndefined
           | JStr s \<Rightarrow> Inr (JStr (toLowerCase s))
           | _ \<Rightarrow> Inl TypeError)"

section \<open>Relevance Model: \<^verbatim>\<open>calculateContextRelevance\<close> (src/llm/context.js)\<close>

definition hoursDifference :: "int \<Rightarrow> int \<Rightarrow> real" where
  "hoursDifference currentTime previousTime =
     \<bar>real_of_int (currentTime - previousTime)\<bar> / (1000 * 60 * 60)"

text \<open>
  \<^verbatim>\<open>relevanceFactors[type]\<close> for a string \<open>type\<close>. The table is a plain object
  literal, so a key it does not define is looked up in \<^verbatim>\<open>Object.prototype\<close>; of
  the inherited names only \<^verbatim>\<open>constructor\<close> and \<^verbatim>\<open>__proto__\<close> are lower-case.
\<close>

definition relevanceFactors :: "real \<Rightarrow> string \<Rightarrow> jsval" where
  "relevanceFactors h t =
     (if t = ''physical'' then JNum (max 0 (1 - h / 6))
      else if t = ''emotional'' then JNum (max 0 (1 - h / 12))
      else if t = ''activity'' then JNum (max 0 (1 - h / 36))
      else if t = ''event'' then JNum (max 0 (1 - h / 24))
      else if t = ''state'' then JNum (max 0 (1 - h / 12))
      else if t = ''need'' then JNum (max 0 (1 - h / 8))
      else if t = ''achievement'' then JNum (max 0 (1 - h / 48))
      else if t = ''default'' then JNum (max 0 (1 - h / 18))
      else if t = ''constructor'' then JNative ''Object''
      else if t = ''__proto__'' then JNative ''Object.prototype''
      else JUndefined)"

text \<open>The keyword classification of a metric by its lower-cased name.\<close>

definition metricType :: "string \<Rightarrow> string" where
  "metricType nameLower =
     (if list_ex (js_includes nameLower) [''energy'', ''hunger'', ''sleep'', ''tired'', ''physical'']
      then ''physical''
      else if list_ex (js_includes nameLower) [''focus'', ''mood'', ''stress'', ''feeling'']
      then ''emotional''
      else if list_ex (js_includes nameLower)
                [''project'', ''work'', ''task'', ''progress'', ''coding'', ''writing'']
      then ''activity''
      else ''default'')"

text \<open>
  The callback of \<^verbatim>\<open>metrics.map\<close>. The score is
  \<^verbatim>\<open>relevanceFactors[type] || relevanceFactors.default\<close>.
\<close>

definition metricWithRelevance :: "real \<Rightarrow> jsval \<Rightarrow> js_error + jsval" where
  "metricWithRelevance h metric =
     bindE (optLowerCase metric ''name'') (\<lambda>n.
       let nameLower = (case js_or n (JStr []) of JStr s \<Rightarrow> s | _ \<Rightarrow> []);
           type = metricType nameLower
       in Inr (JObj (set_prop ''relevance_score''
                      (js_or (relevanceFactors h type) (relevanceFactors h ''default''))
                      (spread metric))))"

text \<open>The callback of \<^verbatim>\<open>highlights.map\<close>: the type is the highlight's own, lower-cased.\<close>

definition highlightWithRelevance :: "real \<Rightarrow> jsval \<Rightarrow> js_error + jsval" where
  "highlightWithRelevance h highlight =
     bindE (optLowerCase highlight ''type'') (\<lambda>n.
       let type = (case js_or n (JStr ''default'') of JStr s \<Rightarrow> s | _ \<Rightarrow> ''default'')
       in Inr (JObj (set_prop ''relevance_score''
                      (js_or (relevanceFactors h type) (relevanceFactors h ''default''))
                      (spread highlight))))"

text \<open>The callback of \<^verbatim>\<open>persistent_context.map\<close>: always the \<^verbatim>\<open>activity\<close> factor.\<close>

definition persistentContextWithRelevance :: "real \<Rightarrow> jsval \<Rightarrow> js_error + jsval" where
  "persistentContextWithRelevance h context =
     Inr (JObj (set_prop ''relevance_score'' (relevanceFactors h ''activity'') (spread context)))"

text \<open>
  The body of the \<^verbatim>\<open>try\<close> block. \<open>parseDate v\<close> is \<^verbatim>\<open>new Date(v).getTime()\<close>,
  with \<open>None\<close> for an invalid date; \<open>currentTime\<close> is the clock, in milliseconds.
\<close>

definition calculateContextRelevance_try ::
  "(jsval \<Rightarrow> int option) \<Rightarrow> int \<Rightarrow> jsval \<Rightarrow> js_error + jsval" where
  "calculateContextRelevance_try parseDate currentTime previousStatus =
     (case parseDate (js_prop previousStatus ''timestamp'') of
        None \<Rightarrow> Inr previousStatus
      | Some previousTime \<Rightarrow>
          let h = hoursDifference currentTime previousTime;
              processed_status = js_prop previousStatus ''processed_status''
          in bindE (mapOrEmpty (metricWithRelevance h) (js_prop processed_status ''metrics''))
               (\<lambda>metricsWithRelevance.
             bindE (mapOrEmpty (highlightWithRelevance h) (js_prop processed_status ''highlights''))
               (\<lambda>highlightsWithRelevance.
             bindE (mapOrEmpty (persistentContextWithRelevance h)
                      (js_prop processed_status ''persistent_context''))
               (\<lambda>persistentContextWithRelevance.
             Inr (JObj (set_prop ''processed_status''
                    (JObj (set_prop ''persistent_context'' (JArr persistentContextWithRelevance)
                          (set_prop ''highlights'' (JArr highlightsWithRelevance)
                          (set_prop ''metrics'' (JArr metricsWithRelevance)
                             (spread processed_status)))))
                    (spread previousStatus)))))))"

text \<open>The whole function: the guard, then the \<^verbatim>\<open>try\<close> whose \<^verbatim>\<open>catch\<close> returns the input.\<close>

definition calculateContextRelevance :: "(jsval \<Rightarrow> int option) \<Rightarrow> int \<Rightarrow> jsval \<Rightarrow> jsval" where
  "calculateContextRelevance parseDate currentTime previousStatus =
     (if \<not> truthy previousStatus \<or> \<not> truthy (js_prop previousStatus ''timestamp'')
         \<or> \<not> truthy (js_prop previousStatus ''processed_status'')
      then JNull
      else case calculateContextRelevance_try parseDate currentTime previousStatus of
             Inl e \<Rightarrow> previousStatus
           | Inr r \<Rightarrow> r)"

section \<open>Context Filter: \<^verbatim>\<open>filterRelevantContext\<close> (src/llm/context.js)\<close>

text \<open>
  The threshold after the validity check: a value that is not a number, or a
  number outside \<open>[0, 1]\<close>, is replaced by \<open>0.3\<close>.
\<close>

definition effectiveThreshold :: "jsval \<Rightarrow> real" where
  "effectiveThreshold threshold =
     (case threshold of
        JNum t \<Rightarrow> (if t < 0 \<or> t > 1 then 3 / 10 else t)
      | _ \<Rightarrow> 3 / 10)"

text \<open>
  The filter predicate
  \<^verbatim>\<open>typeof m.relevance_score === 'number' && m.relevance_score >= threshold\<close>;
  the property read throws on a nullish element.
\<close>

definition keepRelevant :: "real \<Rightarrow> jsval \<Rightarrow> js_error + bool" where
  "keepRelevant t m =
     bindE (get_prop m ''relevance_score'')
       (\<lambda>s. Inr (case s of JNum x \<Rightarrow> x \<ge> t | _ \<Rightarrow> False))"

fun filterE :: "('a \<Rightarrow> 'e + bool) \<Rightarrow> 'a list \<Rightarrow> 'e + 'a list" where
  "filterE p [] = Inr []"
| "filterE p (x # xs) =
     (case p x of Inl e \<Rightarrow> Inl e
      | Inr b \<Rightarrow> (case filterE p xs of Inl e \<Rightarrow> Inl e
                  | Inr ys \<Rightarrow> Inr (if b then x # ys else ys)))"

definition filterOrEmpty :: "(jsval \<Rightarrow> js_error + bool) \<Rightarrow> jsval \<Rightarrow> js_error + jsval list" where
  "filterOrEmpty p v =
     (if \<not> truthy v then Inr []
      else case v of JArr xs \<Rightarrow> filterE p xs | _ \<Rightarrow> Inl TypeError)"

definition filterRelevantContext_try :: "jsval \<Rightarrow> real \<Rightarrow> js_error + jsval" where
  "filterRelevantContext_try contextWithRelevance t =
     (let processed_status = js_prop contextWithRelevance ''processed_status''
      in bindE (filterOrEmpty (keepRelevant t) (js_prop processed_status ''metrics''))
           (\<lambda>filteredMetrics.
         bindE (filterOrEmpty (keepRelevant t) (js_prop processed_status ''highlights''))
           (\<lambda>filteredHighlights.
         bindE (filterOrEmpty (keepRelevant t) (js_prop processed_status ''persistent_context''))
           (\<lambda>filteredPersistentContext.
         Inr (JObj (set_prop ''processed_status''
                (JObj (set_prop ''persistent_context'' (JArr filteredPersistentContext)
                      (set_prop ''highlights'' (JArr filteredHighlights)
                      (set_prop ''metrics'' (JArr filteredMetrics)
                         (spread processed_status)))))
                (spread contextWithRelevance)))))))"

definition filterRelevantContext :: "jsval \<Rightarrow> jsval \<Rightarrow> jsval" where
  "filterRelevantContext contextWithRelevance threshold =
     (if \<not> truthy contextWithRelevance \<or> \<not> truthy (js_prop contextWithRelevance ''processed_status'')
      then JNull
      else case filterRelevantContext_try contextWithRelevance (effectiveThreshold threshold) of
             Inl e \<Rightarrow> contextWithRelevance
           | Inr r \<Rightarrow> r)"

section \<open>State Tracker: \<^verbatim>\<open>updatePersonalStateTimes\<close> (src/llm/context.js)\<close>

subsection \<open>\<^verbatim>\<open>String(v)\<close> and \<^verbatim>\<open>parseInt(v, 10)\<close>\<close>

definition int_to_string :: "int \<Rightarrow> string" where
  "int_to_string i = (if i < 0 then ''-'' @ nat_to_string (nat (- i)) else nat_to_string (nat i))"

text \<open>
  \<^verbatim>\<open>String(x)\<close> for a number: an integer below \<open>10\<^sup>2\<^sup>1\<close> in magnitude prints in
  decimal. The digits of any other number are those of its floating-point
  representation; they are left to the parameter \<open>fracToString\<close>.
\<close>

definition numberToString :: "(real \<Rightarrow> string) \<Rightarrow> real \<Rightarrow> string" where
  "numberToString fracToString x =
     (if real_of_int \<lfloor>x\<rfloor> = x \<and> \<bar>x\<bar> < 10 ^ 21 then int_to_string \<lfloor>x\<rfloor> else fracToString x)"

fun join :: "string \<Rightarrow> string list \<Rightarrow> string" where
  "join sep [] = []"
| "join sep [s] = s"
| "join sep (s # t # ss) = s @ sep @ join sep (t # ss)"

fun js_toString :: "(real \<Rightarrow> string) \<Rightarrow> jsval \<Rightarrow> string" where
  "js_toString ns JUndefined = ''undefined''"
| "js_toString ns JNull = ''null''"
| "js_toString ns (JBool b) = (if b then ''true'' else ''false'')"
| "js_toString ns (JNum x) = numberToString ns x"
| "js_toString ns (JStr s) = s"
| "js_toString ns (JArr xs) =
     join '','' (map (\<lambda>x. if nullish x then [] else js_toString ns x) xs)"
| "js_toString ns (JObj kvs) = ''[object Object]''"
| "js_toString ns (JNative n) = n"

text \<open>The white space that \<^verbatim>\<open>parseInt\<close>, \<^verbatim>\<open>trim\<close> and \<^verbatim>\<open>\s\<close> skip, among 8-bit characters.\<close>

definition isWhiteSpace :: "char \<Rightarrow> bool" where
  "isWhiteSpace c = (c \<in> set [CHR 0x09, CHR 0x0A, CHR 0x0B, CHR 0x0C, CHR 0x0D, CHR 0x20, CHR 0xA0])"

definition digitVal :: "char \<Rightarrow> nat option" where
  "digitVal c = map_of (zip ''0123456789'' [0, 1, 2, 3, 4, 5, 6, 7, 8, 9]) c"

fun digitsValue :: "nat \<Rightarrow> string \<Rightarrow> nat" where
  "digitsValue acc [] = acc"
| "digitsValue acc (c # cs) =
     (case digitVal c of None \<Rightarrow> acc | Some d \<Rightarrow> digitsValue (10 * acc + d) cs)"

text \<open>
  The result of \<^verbatim>\<open>parseInt\<close> is a double. An integer of at most 53 bits is
  one; a longer one is rounded to 53 significant bits, ties to even, and
  \<open>2\<^sup>1\<^sup>0\<^sup>2\<^sup>4\<close> stands for \<^verbatim>\<open>Infinity\<close>, which every overflowing value becomes.
\<close>

fun bitlen :: "nat \<Rightarrow> nat" where
  "bitlen n = (if n = 0 then 0 else Suc (bitlen (n div 2)))"

declare bitlen.simps [simp del]

definition roundToDouble :: "nat \<Rightarrow> nat" where
  "roundToDouble n =
     (if bitlen n \<le> 53 then n
      else
        let e = bitlen n - 53;
            q = n div 2 ^ e;
            r = n mod 2 ^ e;
            h = 2 ^ (e - 1);
            m = (if r > h \<or> (r = h \<and> odd q) then q + 1 else q)
        in min (m * 2 ^ e) (2 ^ 1024))"

text \<open>
  \<^verbatim>\<open>parseInt(s, 10)\<close> on a string: leading white space, an optional sign, then
  the longest run of decimal digits, as a double; \<open>None\<close> is \<^verbatim>\<open>NaN\<close>.
\<close>

definition parseInt10_string :: "string \<Rightarrow> int option" where
  "parseInt10_string s =
     (let t = dropWhile isWhiteSpace s;
          neg = (case t of c # r \<Rightarrow> c = CHR ''-'' | [] \<Rightarrow> False);
          u = (case t of c # r \<Rightarrow> if c = CHR ''-'' \<or> c = CHR ''+'' then r else t | [] \<Rightarrow> [])
      in case u of
           [] \<Rightarrow> None
         | c # r \<Rightarrow> (if digitVal c = None then None
                     else Some ((if neg then - 1 else 1)
                                 * int (roundToDouble (digitsValue 0 u)))))"

definition parseInt10 :: "(real \<Rightarrow> string) \<Rightarrow> jsval \<Rightarrow> int option" where
  "parseInt10 ns v = parseInt10_string (js_toString ns v)"

subsection \<open>The map of previous states\<close>

text \<open>Key equality of a \<^verbatim>\<open>Map\<close>: primitives by value, objects by identity.\<close>

fun sameValueZero :: "jsval \<Rightarrow> jsval \<Rightarrow> bool" where
  "sameValueZero JUndefined JUndefined = True"
| "sameValueZero JNull JNull = True"
| "sameValueZero (JBool a) (JBool b) = (a = b)"
| "sameValueZero (JNum a) (JNum b) = (a = b)"
| "sameValueZero (JStr a) (JStr b) = (a = b)"
| "sameValueZero a b = False"

fun mapSet :: "jsval \<Rightarrow> jsval \<Rightarrow> (jsval \<times> jsval) list \<Rightarrow> (jsval \<times> jsval) list" where
  "mapSet k v [] = [(k, v)]"
| "mapSet k v ((k', v') # m) =
     (if sameValueZero k' k then (k', v) # m else (k', v') # mapSet k v m)"

fun mapGet :: "(jsval \<times> jsval) list \<Rightarrow> jsval \<Rightarrow> jsval" where
  "mapGet [] k = JUndefined"
| "mapGet ((k', v) # m) k = (if sameValueZero k' k then v else mapGet m k)"

text \<open>The \<^verbatim>\<open>forEach\<close> that fills \<^verbatim>\<open>prevStateMap\<close>.\<close>

definition prevStateMap :: "jsval list \<Rightarrow> (jsval \<times> jsval) list" where
  "prevStateMap previousStates =
     foldl (\<lambda>m state. if truthy state \<and> truthy (js_prop state ''name'')
                        then mapSet (js_prop state ''name'') state m else m)
           [] previousStates"

subsection \<open>Elapsed time\<close>

text \<open>\<^verbatim>\<open>Math.round\<close>: to the nearest integer, halves upwards.\<close>

definition mathRound :: "real \<Rightarrow> int" where
  "mathRound x = \<lfloor>x + 1 / 2\<rfloor>"

text \<open>An invalid date makes every comparison false and prints as \<^verbatim>\<open>NaNd\<close>.\<close>

definition getTimeSinceUpdate :: "(jsval \<Rightarrow> int option) \<Rightarrow> int \<Rightarrow> jsval \<Rightarrow> string" where
  "getTimeSinceUpdate parseDate now previousTimestampISO =
     (case parseDate previousTimestampISO of
        None \<Rightarrow> ''NaNd''
      | Some prevDate \<Rightarrow>
          let diffMinutes = mathRound (real_of_int (now - prevDate) / (1000 * 60))
          in if diffMinutes < 1 then ''now''
             else if diffMinutes < 60 then int_to_string diffMinutes @ ''m''
             else let diffHours = mathRound (real_of_int diffMinutes / 60)
                  in if diffHours < 24 then int_to_string diffHours @ ''h''
                     else let diffDays = mathRound (real_of_int diffHours / 24)
                          in int_to_string diffDays @ ''d'')"

definition updateTimeElapsed :: "(real \<Rightarrow> string) \<Rightarrow> jsval \<Rightarrow> jsval \<Rightarrow> jsval" where
  "updateTimeElapsed ns prevTimeStr additionalTimeStr =
     (if truthy prevTimeStr \<and> prevTimeStr \<noteq> JStr ''just now''
      then JStr (js_toString ns prevTimeStr @ '' + '' @ js_toString ns additionalTimeStr)
      else js_or (js_or prevTimeStr additionalTimeStr) (JStr ''unknown''))"

subsection \<open>Reconciliation\<close>

text \<open>
  The callback of \<^verbatim>\<open>currentStates.map\<close>, for the map \<open>m\<close> of previous states and
  the elapsed-time string (or \<^verbatim>\<open>null\<close>).
\<close>

definition updateState ::
  "(real \<Rightarrow> string) \<Rightarrow> (jsval \<times> jsval) list \<Rightarrow> jsval \<Rightarrow> jsval \<Rightarrow> jsval" where
  "updateState ns m timeSinceUpdateStr currentState =
     (if \<not> truthy currentState \<or> \<not> truthy (js_prop currentState ''name'') then currentState
      else
        let prevState = mapGet m (js_prop currentState ''name'');
            updatedState = spread currentState
        in if \<not> truthy prevState then JObj (set_prop ''trend'' (JStr ''new'') updatedState)
           else
             let prevLevel = parseInt10 ns (js_prop prevState ''level'');
                 currentLevel = parseInt10 ns (js_prop currentState ''level'');
                 trend = (case (currentLevel, prevLevel) of
                            (Some c, Some p) \<Rightarrow>
                               if c > p then ''increasing''
                               else if c < p then ''decreasing'' else ''stable''
                          | _ \<Rightarrow> ''stable'');
                 updatedState = set_prop ''trend'' (JStr trend) updatedState
             in if \<not> truthy (js_prop (JObj updatedState) ''time_since_last'')
                   \<and> truthy (js_prop prevState ''time_since_last'') \<and> truthy timeSinceUpdateStr
                then JObj (set_prop ''time_since_last''
                            (updateTimeElapsed ns (js_prop prevState ''time_since_last'')
                               timeSinceUpdateStr)
                            updatedState)
                else JObj updatedState)"

text \<open>\<^verbatim>\<open>Array.isArray(v)\<close>\<close>

fun isArray :: "jsval \<Rightarrow> bool" where
  "isArray (JArr xs) = True"
| "isArray v = False"

text \<open>\<^verbatim>\<open>if (!Array.isArray(v)) v = []\<close>, as a list of elements.\<close>

definition arrayOrEmpty :: "jsval \<Rightarrow> jsval list" where
  "arrayOrEmpty v = (case v of JArr xs \<Rightarrow> xs | _ \<Rightarrow> [])"

definition updatePersonalStateTimes ::
  "(real \<Rightarrow> string) \<Rightarrow> (jsval \<Rightarrow> int option) \<Rightarrow> int \<Rightarrow> jsval \<Rightarrow> jsval \<Rightarrow> jsval \<Rightarrow> jsval" where
  "updatePersonalStateTimes ns parseDate now previousStates currentStates previousTimestampISO =
     (let timeSinceUpdateStr =
            (if truthy previousTimestampISO
             then JStr (getTimeSinceUpdate parseDate now previousTimestampISO) else JNull)
      in JArr (map (updateState ns (prevStateMap (arrayOrEmpty previousStates)) timeSinceUpdateStr)
                   (arrayOrEmpty currentStates)))"

subsection \<open>Step 4b of \<^verbatim>\<open>processStatusUpdate\<close> (src/api/status.js)\<close>



section \<open>Validation/Repair: \<^verbatim>\<open>validateAndRepairStatusJSON\<close> (src/llm/processor.js)\<close>

text \<open>\<^verbatim>\<open>s.trim()\<close>\<close>

definition trim :: "string \<Rightarrow> string" where
  "trim s = rev (dropWhile isWhiteSpace (rev (dropWhile isWhiteSpace s)))"

text \<open>
  The fallback snapshot. The texts of \<^verbatim>\<open>mood_emoji\<close> and \<^verbatim>\<open>icon\<close> are the bytes
  the source file holds between the quotes. The source also builds a
  \<^verbatim>\<open>fallbackSummary\<close> from the original text and never uses it, so the text
  does not reach the result.
\<close>

definition createDefaultStatus :: "string \<Rightarrow> string \<Rightarrow> jsval" where
  "createDefaultStatus text reason =
     JObj [
       (''overall_status'', JStr ''Analysis Failed''),
       (''mood_emoji'', JStr [CHR 0xE2, CHR 0x80, CHR 0x9A, CHR 0xC3, CHR 0xB6, CHR 0xE2, CHR 0x80, CHR 0xA0,
                              CHR 0xC3, CHR 0x94, CHR 0xE2, CHR 0x88, CHR 0x8F, CHR 0xC3, CHR 0xA8]),
       (''visual_theme'', JStr ''default''),
       (''accent_color'', JStr ''#FEE75C''),
       (''metrics'', JArr [JObj [
           (''name'', JStr ''Processing Status''),
           (''value'', JStr ''Failed''),
           (''value_rating'', JNum 1),
           (''trend'', JStr ''new''),
           (''icon'', JStr [CHR 0xE2, CHR 0x80, CHR 0x9A, CHR 0xC3, CHR 0xB6, CHR 0xC3, CHR 0xB4,
                              CHR 0xC3, CHR 0x94, CHR 0xE2, CHR 0x88, CHR 0x8F, CHR 0xC3, CHR 0xA8])]]),
       (''highlights'', JArr [JObj [
           (''type'', JStr ''state''),
           (''description'', JStr (''Failed to analyze status update. Reason: '' @ reason)),
           (''timeframe'', JStr ''current''),
           (''is_new'', JBool True)]]),
       (''persistent_context'', JArr []),
       (''narrative_summary'', JStr (''Analysis failed. '' @ reason)),
       (''errors'', JArr [JStr (''LLM Processing Error: '' @ reason)]),
       (''personal_states'', JArr [])]"

subsection \<open>The extraction pattern\<close>

text \<open>
  The regular expression
  \<^verbatim>\<open>/```json\s*([\s\S]*?)\s*```|(\{[\s\S]*\})/\<close>,
  alternative by alternative.

  First alternative at the start of \<open>s\<close>: the opening fence, all the white
  space after it, then the shortest text after which optional white space and a
  closing fence follow. (Giving white space back to the group cannot help: a
  fence does not start inside white space.) The result is group 1.
\<close>

fun lazyGroup :: "string \<Rightarrow> string option" where
  "lazyGroup [] = None"
| "lazyGroup (c # cs) =
     (if startsWith (dropWhile isWhiteSpace (c # cs)) ''```'' then Some []
      else map_option ((#) c) (lazyGroup cs))"

definition fencedAt :: "string \<Rightarrow> string option" where
  "fencedAt s =
     (if startsWith s ''```json'' then lazyGroup (dropWhile isWhiteSpace (drop 7 s)) else None)"

text \<open>
  Second alternative at the start of \<open>s\<close>: an opening brace, then everything up
  to the last closing brace. The result is group 2.
\<close>

definition bracedAt :: "string \<Rightarrow> string option" where
  "bracedAt s =
     (case s of
        [] \<Rightarrow> None
      | c # cs \<Rightarrow>
          if c = CHR ''{'' \<and> CHR ''}'' \<in> set cs
          then Some (c # rev (dropWhile (\<lambda>d. d \<noteq> CHR ''}'') (rev cs)))
          else None)"

text \<open>
  \<^verbatim>\<open>jsonString.match(...)\<close>: the leftmost position where an alternative
  matches, the first alternative first. The result is the pair of groups, the
  one that did not take part being \<^verbatim>\<open>undefined\<close>.
\<close>

fun jsonMatch :: "string \<Rightarrow> (jsval \<times> jsval) option" where
  "jsonMatch [] = None"
| "jsonMatch (c # cs) =
     (case fencedAt (c # cs) of
        Some g \<Rightarrow> Some (JStr g, JUndefined)
      | None \<Rightarrow>
          (case bracedAt (c # cs) of
             Some g \<Rightarrow> Some (JUndefined, JStr g)
           | None \<Rightarrow> jsonMatch cs))"

subsection \<open>The function\<close>

text \<open>
  \<open>JSON_parse\<close> is the platform's \<^verbatim>\<open>JSON.parse\<close>: \<open>None\<close> when it throws.
\<close>

definition validateAndRepairStatusJSON ::
  "(string \<Rightarrow> jsval option) \<Rightarrow> jsval \<Rightarrow> string \<Rightarrow> jsval" where
  "validateAndRepairStatusJSON JSON_parse jsonString originalText =
     (case jsonString of
        JStr s \<Rightarrow>
          if trim s = [] then createDefaultStatus originalText ''LLM returned empty response.''
          else
            (case JSON_parse s of
               Some parsed \<Rightarrow> parsed
             | None \<Rightarrow>
                 (case jsonMatch s of
                    Some (g1, g2) \<Rightarrow>
                      (case js_or g1 g2 of
                         JStr extractedJson \<Rightarrow>
                           if extractedJson \<noteq> [] then
                             (case JSON_parse extractedJson of
                                Some repairedParsed \<Rightarrow> repairedParsed
                              | None \<Rightarrow>
                                  createDefaultStatus originalText
                                    ''LLM response was malformed JSON.'')
                           else createDefaultStatus originalText
                                  ''LLM response did not contain valid JSON.''
                       | _ \<Rightarrow> createDefaultStatus originalText
                                ''LLM response did not contain valid JSON.'')
                  | None \<Rightarrow>
                      createDefaultStatus originalText
                        ''LLM response did not contain valid JSON.''))
      | _ \<Rightarrow> createDefaultStatus originalText ''LLM returned empty response.'')"

section \<open>Storage: \<^verbatim>\<open>storeUserStatus\<close>, \<^verbatim>\<open>purgeUserData\<close> (src/storage/kv.js)\<close>

subsection \<open>The key-value store\<close>

text \<open>
  The store is the platform's (a Workers KV namespace), reached through
  \<^verbatim>\<open>get\<close>, \<^verbatim>\<open>put\<close>, \<^verbatim>\<open>delete\<close> and \<^verbatim>\<open>list\<close>. It is modelled as an association
  list from keys to JSON values whose operations always succeed: a value is
  written with \<^verbatim>\<open>JSON.stringify\<close> and read back with \<^verbatim>\<open>{type: 'json'}\<close>, which
  gives the same tree. A missing key reads as \<^verbatim>\<open>null\<close>. \<^verbatim>\<open>list\<close> returns the
  keys with a prefix in ascending order, at most \<open>limit\<close> at a time; the cursor
  of an incomplete page is its last key.
\<close>

type_synonym kv = "(string \<times> jsval) list"

definition kv_get :: "kv \<Rightarrow> string \<Rightarrow> jsval" where
  "kv_get kv key = (case map_of kv key of None \<Rightarrow> JNull | Some v \<Rightarrow> v)"

definition kv_put :: "kv \<Rightarrow> string \<Rightarrow> jsval \<Rightarrow> kv" where
  "kv_put kv key v = AList.update key v kv"

definition kv_delete :: "kv \<Rightarrow> string \<Rightarrow> kv" where
  "kv_delete kv key = AList.delete key kv"

record list_result =
  keys :: "string list"
  list_complete :: bool
  cursor :: "string option"

definition afterCursor :: "string option \<Rightarrow> string \<Rightarrow> bool" where
  "afterCursor c k = (case c of None \<Rightarrow> True | Some l \<Rightarrow> l < k)"

definition keysToList :: "kv \<Rightarrow> string \<Rightarrow> string option \<Rightarrow> string list" where
  "keysToList kv prefix c = filter (\<lambda>k. startsWith k prefix \<and> afterCursor c k) (map fst kv)"

definition kv_list :: "kv \<Rightarrow> string \<Rightarrow> string option \<Rightarrow> nat \<Rightarrow> list_result" where
  "kv_list kv prefix c limit =
     (let rest = sort (remdups (keysToList kv prefix c));
          page = take limit rest
      in \<lparr> keys = page,
           list_complete = (length rest \<le> limit),
           cursor = (if length rest \<le> limit then None else Some (last page)) \<rparr>)"

subsection \<open>Status history\<close>

definition historyKey :: "string \<Rightarrow> string" where
  "historyKey userId = ''user:'' @ userId @ '':status_history''"

definition latestKey :: "string \<Rightarrow> string" where
  "latestKey userId = ''user:'' @ userId @ '':latest_status''"

text \<open>
  \<^verbatim>\<open>(data && Array.isArray(data.history)) ? data.history : []\<close>
\<close>

definition historyOf :: "jsval \<Rightarrow> jsval list" where
  "historyOf historyData =
     (if truthy historyData
      then (case js_prop historyData ''history'' of JArr h \<Rightarrow> h | _ \<Rightarrow> [])
      else [])"

text \<open>
  \<open>now\<close> is \<^verbatim>\<open>new Date().toISOString()\<close>. The result is the new entry, or
  \<^verbatim>\<open>null\<close>, together with the store after the call.
\<close>

definition storeUserStatus ::
  "string \<Rightarrow> jsval \<Rightarrow> jsval \<Rightarrow> kv option \<Rightarrow> int \<Rightarrow> string \<Rightarrow> jsval \<times> kv option" where
  "storeUserStatus userId rawInput processedStatus kvStore historyLimit now =
     (case kvStore of
        None \<Rightarrow> (JNull, None)
      | Some kv \<Rightarrow>
          if userId = [] \<or> \<not> truthy processedStatus then (JNull, Some kv)
          else
            let historyData = kv_get kv (historyKey userId);
                history = historyOf historyData;
                newStatusEntry = JObj [(''timestamp'', JStr now), (''raw_input'', rawInput),
                                       (''processed_status'', processedStatus)];
                history = history @ [newStatusEntry];
                history = (if historyLimit > 0 \<and> int (length history) > historyLimit
                           then drop (nat (int (length history) - historyLimit)) history
                           else history);
                kv = kv_put kv (historyKey userId) (JObj [(''history'', JArr history)]);
                kv = kv_put kv (latestKey userId) newStatusEntry
            in (newStatusEntry, Some kv))"

definition getUserStatusHistory :: "string \<Rightarrow> kv option \<Rightarrow> int \<Rightarrow> jsval list" where
  "getUserStatusHistory userId kvStore limit =
     (case kvStore of
        None \<Rightarrow> []
      | Some kv \<Rightarrow>
          if userId = [] then []
          else
            let data = kv_get kv (historyKey userId)
            in if \<not> truthy data \<or> \<not> isArray (js_prop data ''history'') then []
               else
                 let history = historyOf data
                 in if limit > 0 \<and> int (length history) > limit
                    then drop (nat (int (length history) - limit)) history
                    else history)"

definition getLatestUserStatus :: "string \<Rightarrow> kv option \<Rightarrow> jsval" where
  "getLatestUserStatus userId kvStore =
     (case kvStore of
        None \<Rightarrow> JNull
      | Some kv \<Rightarrow> if userId = [] then JNull else js_or (kv_get kv (latestKey userId)) JNull)"

text \<open>A run of status updates for one user: raw input, snapshot and clock of each.\<close>

fun storeAll :: "string \<Rightarrow> int \<Rightarrow> kv option \<Rightarrow> (jsval \<times> jsval \<times> string) list \<Rightarrow> kv option" where
  "storeAll userId historyLimit kvStore [] = kvStore"
| "storeAll userId historyLimit kvStore ((rawInput, processedStatus, now) # updates) =
     storeAll userId historyLimit
       (snd (storeUserStatus userId rawInput processedStatus kvStore historyLimit now)) updates"

definition statusEntry :: "jsval \<times> jsval \<times> string \<Rightarrow> jsval" where
  "statusEntry u =
     (case u of (rawInput, processedStatus, now) \<Rightarrow>
        JObj [(''timestamp'', JStr now), (''raw_input'', rawInput),
              (''processed_status'', processedStatus)])"

subsection \<open>Purge\<close>

text \<open>
  The two paging loops of \<^verbatim>\<open>purgeUserData\<close> end because every incomplete page
  moves the cursor past at least one key, whether or not keys are deleted in
  between. The two lemmas below are what the termination proofs need.
\<close>

lemma keys_foldl_kv_delete:
  "map fst (foldl kv_delete kv ks) = filter (\<lambda>k. k \<notin> set ks) (map fst kv)"
proof (induction ks arbitrary: kv)
  case Nil
  then show ?case by simp
next
  case (Cons a ks)
  have "map fst (kv_delete kv a) = filter (\<lambda>k. k \<noteq> a) (map fst kv)"
    by (induction kv) (auto simp: kv_delete_def)
  with Cons show ?case by (auto intro: filter_cong)
qed

lemma next_page_shorter:
  assumes more: "\<not> list_complete (kv_list kv prefix c limit)"
    and pos: "0 < limit"
    and sub: "map fst kv' = filter Q (map fst kv)"
  shows "length (keysToList kv' prefix (cursor (kv_list kv prefix c limit)))
           < length (keysToList kv prefix c)"
proof -
  let ?K = "keysToList kv prefix c"
  define rest where "rest = sort (remdups ?K)"
  define l where "l = last (take limit rest)"
  from more have long: "limit < length rest"
    by (simp add: kv_list_def Let_def rest_def)
  then have "length (take limit rest) = limit" by simp
  with pos have "take limit rest \<noteq> []" by auto
  then have "l \<in> set (take limit rest)" by (simp add: l_def)
  then have "l \<in> set rest" by (rule in_set_takeD)
  then have lK: "l \<in> set ?K" by (simp add: rest_def)
  then have lc: "afterCursor c l" by (auto simp: keysToList_def)
  have cur: "cursor (kv_list kv prefix c limit) = Some l"
    using long by (simp add: kv_list_def Let_def l_def rest_def)
  have "keysToList kv' prefix (Some l) = filter (\<lambda>k. Q k \<and> l < k) ?K"
    using lc by (auto simp: keysToList_def sub afterCursor_def intro!: filter_cong
                      split: option.splits)
  moreover have "length (filter (\<lambda>k. Q k \<and> l < k) ?K) < length ?K"
    using lK by (intro length_filter_less[of l]) auto
  ultimately show ?thesis by (simp add: cur)
qed

text \<open>
  Step 1: the keys of the activities the user created, page by page. Nothing is
  deleted yet.
\<close>

function collectActivityKeys :: "kv \<Rightarrow> string \<Rightarrow> string option \<Rightarrow> string list \<Rightarrow> string list" where
  "collectActivityKeys kv userId activityCursor activityKeysToDelete =
     (let listResult = kv_list kv ''activity:'' activityCursor 100;
          found = filter (\<lambda>key. let activityData = kv_get kv key
                                in truthy activityData \<and> js_prop activityData ''creator'' = JStr userId)
                         (keys listResult)
      in if list_complete listResult then activityKeysToDelete @ found
         else collectActivityKeys kv userId (cursor listResult) (activityKeysToDelete @ found))"
  by pat_completeness auto
termination
proof (relation "measure (\<lambda>(kv, userId, c, acc). length (keysToList kv ''activity:'' c))")
  show "wf (measure (\<lambda>(kv, userId, c, acc). length (keysToList kv ''activity:'' c)))" by simp
next
  fix kv :: kv and userId :: string and activityCursor :: "string option"
    and activityKeysToDelete :: "string list" and listResult found
  assume "listResult = kv_list kv ''activity:'' activityCursor 100"
    and "\<not> list_complete listResult"
  then have "length (keysToList kv ''activity:'' (cursor listResult))
               < length (keysToList kv ''activity:'' activityCursor)"
    using next_page_shorter [of kv "''activity:''" activityCursor 100 kv "\<lambda>k. True"] by simp
  then show "((kv, userId, cursor listResult, activityKeysToDelete @ found),
              (kv, userId, activityCursor, activityKeysToDelete))
             \<in> measure (\<lambda>(kv, userId, c, acc). length (keysToList kv ''activity:'' c))"
    by simp
qed

text \<open>
  Step 2, for one prefix: list a page, delete its keys one by one counting each
  delete, and go on from the cursor until the listing is complete.
\<close>

function deletePrefixedKeys :: "kv \<Rightarrow> string \<Rightarrow> string option \<Rightarrow> int \<Rightarrow> kv \<times> int" where
  "deletePrefixedKeys kv prefix c deletedCount =
     (let listResult = kv_list kv prefix c 100;
          kv' = foldl kv_delete kv (keys listResult);
          deletedCount' = deletedCount + int (length (keys listResult))
      in if list_complete listResult then (kv', deletedCount')
         else deletePrefixedKeys kv' prefix (cursor listResult) deletedCount')"
  by pat_completeness auto
termination
proof (relation "measure (\<lambda>(kv, prefix, c, n). length (keysToList kv prefix c))")
  show "wf (measure (\<lambda>(kv, prefix, c, n). length (keysToList kv prefix c)))" by simp
next
  fix kv :: kv and prefix :: string and c :: "string option" and deletedCount :: int
    and listResult kv' deletedCount'
  assume lr: "listResult = kv_list kv prefix c 100"
    and kv': "kv' = foldl kv_delete kv (keys listResult)"
    and "\<not> list_complete listResult"
  then have "length (keysToList kv' prefix (cursor listResult)) < length (keysToList kv prefix c)"
    using next_page_shorter [of kv prefix c 100 kv' "\<lambda>k. k \<notin> set (keys listResult)"]
    by (simp add: keys_foldl_kv_delete)
  then show "((kv', prefix, cursor listResult, deletedCount'), (kv, prefix, c, deletedCount))
             \<in> measure (\<lambda>(kv, prefix, c, n). length (keysToList kv prefix c))"
    by simp
qed

declare collectActivityKeys.simps [simp del]

declare deletePrefixedKeys.simps [simp del]

text \<open>
  The whole operation. It throws for a missing user id or binding; with a store
  whose operations succeed nothing else throws, so the \<^verbatim>\<open>catch\<close> that re-throws
  is not reached. The result is the count and the store after the purge.
\<close>

definition purgeUserData :: "string \<Rightarrow> kv option \<Rightarrow> js_error + (int \<times> kv)" where
  "purgeUserData userId kvStore =
     (case kvStore of
        None \<Rightarrow> Inl (Error ''Missing userId or kvStore binding for purgeUserData.'')
      | Some kv \<Rightarrow>
          if userId = [] then Inl (Error ''Missing userId or kvStore binding for purgeUserData.'')
          else
            let keyPrefixes = [''user:'' @ userId @ '':'', ''profile:'' @ userId,
                               ''log:interactions:'' @ userId];
                activityKeysToDelete = collectActivityKeys kv userId None [];
                (kv, deletedCount) =
                   foldl (\<lambda>(kv, deletedCount) prefix. deletePrefixedKeys kv prefix None deletedCount)
                         (kv, 0) keyPrefixes;
                kv = foldl kv_delete kv activityKeysToDelete;
                deletedCount = deletedCount + int (length activityKeysToDelete)
            in Inr (deletedCount, kv))"

section \<open>Notions of the specification and sample data\<close>

subsection \<open>Context Filter\<close>

text \<open>
  The contract in the specification's words: an element is retained iff it
  carries a numeric \<^verbatim>\<open>relevance_score\<close> and that score is at least \<open>t\<close>.
\<close>

definition retainedBySpec :: "real \<Rightarrow> jsval \<Rightarrow> bool" where
  "retainedBySpec t m = (case js_prop m ''relevance_score'' of JNum x \<Rightarrow> x \<ge> t | _ \<Rightarrow> False)"

text \<open>
  The threshold in the specification's words: a threshold outside \<open>[0, 1]\<close>, or
  one that is not a number, is replaced by the default \<open>0.3\<close>.
\<close>

definition thresholdBySpec :: "jsval \<Rightarrow> real" where
  "thresholdBySpec threshold =
     (case threshold of JNum t \<Rightarrow> if 0 \<le> t \<and> t \<le> 1 then t else 3 / 10 | _ \<Rightarrow> 3 / 10)"

text \<open>
  An array field of a snapshot as the filter expects it: absent (falsy), or an
  array none of whose elements is \<^verbatim>\<open>null\<close>. On any other value the filter's
  \<^verbatim>\<open>try\<close> block throws and the \<^verbatim>\<open>catch\<close> returns the snapshot unfiltered.
\<close>

definition elementsOk :: "jsval \<Rightarrow> bool" where
  "elementsOk v = (\<not> truthy v \<or> (isArray v \<and> list_all (\<lambda>x. \<not> nullish x) (arrayOrEmpty v)))"

subsection \<open>Clocks and sample entries\<close>

text \<open>A date parser for which every timestamp is the epoch, and one for which none is valid.\<close>

definition clockZero :: "jsval \<Rightarrow> int option" where
  "clockZero v = Some 0"

definition neverParses :: "jsval \<Rightarrow> int option" where
  "neverParses v = None"

text \<open>A stored entry whose snapshot has one metric, named \<^verbatim>\<open>Energy\<close>.\<close>

definition energyEntry :: jsval where
  "energyEntry =
     JObj [(''timestamp'', JStr ''2025-05-01T00:00:00.000Z''),
           (''raw_input'', JStr ''tired''),
           (''processed_status'', JObj [(''metrics'', JArr [JObj [(''name'', JStr ''Energy'')]])])]"

text \<open>A scored snapshot: one metric above the default threshold, one below, one unscored.\<close>

definition scoredEntry :: jsval where
  "scoredEntry =
     JObj [(''timestamp'', JStr ''2025-05-01T00:00:00.000Z''),
           (''processed_status'',
              JObj [(''metrics'',
                       JArr [JObj [(''name'', JStr ''Focus''), (''relevance_score'', JNum (4 / 5))],
                             JObj [(''name'', JStr ''Energy''), (''relevance_score'', JNum (1 / 10))],
                             JObj [(''name'', JStr ''Mood'')]]),
                    (''highlights'', JArr []),
                    (''persistent_context'', JArr [])])]"

subsection \<open>State Tracker\<close>

text \<open>A formatter for non-integral numbers that prints nothing.\<close>

definition noFraction :: "real \<Rightarrow> string" where
  "noFraction x = []"












fun isObject :: "jsval \<Rightarrow> bool" where
  "isObject (JObj kvs) = True"
| "isObject v = False"

text \<open>Sample states: hunger at level 4, satisfied just now or 4 hours ago; hunger at level 1.\<close>

definition hungerJustNow :: jsval where
  "hungerJustNow = JObj [(''name'', JStr ''Hunger''), (''level'', JNum 4),
                         (''time_since_last'', JStr ''just now'')]"

definition hunger4hAgo :: jsval where
  "hunger4hAgo = JObj [(''name'', JStr ''Hunger''), (''level'', JNum 4),
                       (''time_since_last'', JStr ''4h ago'')]"

definition hungerLevel1 :: jsval where
  "hungerLevel1 = JObj [(''name'', JStr ''Hunger''), (''level'', JNum 1)]"






subsection \<open>Validation/Repair\<close>

text \<open>
  The shape of a snapshot as far as the arrays go: an object whose \<^verbatim>\<open>metrics\<close>,
  \<^verbatim>\<open>highlights\<close>, \<^verbatim>\<open>persistent_context\<close>, \<^verbatim>\<open>personal_states\<close> and \<^verbatim>\<open>errors\<close>
  are all present and arrays.
\<close>

definition hasSnapshotArrays :: "jsval \<Rightarrow> bool" where
  "hasSnapshotArrays v =
     (isObject v \<and> isArray (js_prop v ''metrics'') \<and> isArray (js_prop v ''highlights'')
      \<and> isArray (js_prop v ''persistent_context'') \<and> isArray (js_prop v ''personal_states'')
      \<and> isArray (js_prop v ''errors''))"

text \<open>
  A stand-in for \<^verbatim>\<open>JSON.parse\<close> that reads the text \<^verbatim>\<open>{}\<close> alone and throws on
  everything else.
\<close>

definition emptyObjectParser :: "string \<Rightarrow> jsval option" where
  "emptyObjectParser s = (if s = ''{}'' then Some (JObj []) else None)"

text \<open>The text \<^verbatim>\<open>{}\<close> inside a fenced block, on lines of its own.\<close>

definition fencedEmptyObject :: string where
  "fencedEmptyObject = ''```json'' @ [CHR 0x0A] @ ''{}'' @ [CHR 0x0A] @ ''```''"

subsection \<open>Status history\<close>

text \<open>
  The trimming step of \<^verbatim>\<open>storeUserStatus\<close> on its own, and the last \<open>C\<close>
  entries of a history.
\<close>

definition trimmed :: "int \<Rightarrow> jsval list \<Rightarrow> jsval list" where
  "trimmed historyLimit h =
     (if historyLimit > 0 \<and> int (length h) > historyLimit
      then drop (nat (int (length h) - historyLimit)) h else h)"

definition lastEntries :: "int \<Rightarrow> jsval list \<Rightarrow> jsval list" where
  "lastEntries C xs = drop (length xs - nat C) xs"

text \<open>Three status updates, all with a snapshot.\<close>

definition threeUpdates :: "(jsval \<times> jsval \<times> string) list" where
  "threeUpdates =
     [(JStr ''one'', JObj [(''overall_status'', JStr ''1'')], ''2025-05-01T10:00:00.000Z''),
      (JStr ''two'', JObj [(''overall_status'', JStr ''2'')], ''2025-05-01T11:00:00.000Z''),
      (JStr ''three'', JObj [(''overall_status'', JStr ''3'')], ''2025-05-01T12:00:00.000Z'')]"

subsection \<open>Purge\<close>

text \<open>
  The user has no data in the store: no key under one of the three user
  prefixes, and no activity whose creator is the user.
\<close>

definition userDataEmpty :: "string \<Rightarrow> kv \<Rightarrow> bool" where
  "userDataEmpty userId kv =
     (keysToList kv (''user:'' @ userId @ '':'') None = []
      \<and> keysToList kv (''profile:'' @ userId) None = []
      \<and> keysToList kv (''log:interactions:'' @ userId) None = []
      \<and> list_all (\<lambda>k. \<not> (startsWith k ''activity:'' \<and> truthy (kv_get kv k)
                           \<and> js_prop (kv_get kv k) ''creator'' = JStr userId))
                  (map fst kv))"

text \<open>A store with data of user 42, a profile of user 421 and an activity of user 7.\<close>

definition sampleStore :: kv where
  "sampleStore =
     [(''user:42:status_history'', JObj [(''history'', JArr [])]),
      (''user:42:latest_status'', JNull),
      (''profile:42'', JObj []),
      (''profile:421'', JObj []),
      (''activity:act_1'', JObj [(''creator'', JStr ''42'')]),
      (''activity:act_2'', JObj [(''creator'', JStr ''7'')])]"

section \<open>Properties\<close>

subsection \<open>Auxiliary facts\<close>

lemma map_of_set_prop:
  "map_of (set_prop k v kvs) k' = (if k' = k then Some v else map_of kvs k')"
  by (simp add: set_prop_def update_conv')


lemma filterE_total:
  "(\<And>x. x \<in> set xs \<Longrightarrow> p x = Inr (q x)) \<Longrightarrow> filterE p xs = Inr (filter q xs)"
  by (induction xs) auto





subsection \<open>Relevance Model\<close>

text \<open>
  The table itself is the linear decay of the specification, with the spans
  6, 12, 12, 24, 36, 8, 48 and 18 hours.
\<close>

lemma relevanceFactors_table:
  "relevanceFactors h ''physical'' = JNum (max 0 (1 - h / 6))"
  "relevanceFactors h ''emotional'' = JNum (max 0 (1 - h / 12))"
  "relevanceFactors h ''state'' = JNum (max 0 (1 - h / 12))"
  "relevanceFactors h ''event'' = JNum (max 0 (1 - h / 24))"
  "relevanceFactors h ''activity'' = JNum (max 0 (1 - h / 36))"
  "relevanceFactors h ''need'' = JNum (max 0 (1 - h / 8))"
  "relevanceFactors h ''achievement'' = JNum (max 0 (1 - h / 48))"
  "relevanceFactors h ''default'' = JNum (max 0 (1 - h / 18))"
  by (simp_all add: relevanceFactors_def)

lemmas relevance_eval =
  calculateContextRelevance_def calculateContextRelevance_try_def hoursDifference_def
  mapOrEmpty_def metricWithRelevance_def highlightWithRelevance_def
  persistentContextWithRelevance_def bindE_def optLowerCase_def toLowerCase_def lower_char_def
  js_or_def metricType_def startsWith_def relevanceFactors_def set_prop_def
  energyEntry_def clockZero_def neverParses_def

text \<open>
  Claim C1: every category's score is \<open>max(0, 1 - hoursElapsed / halfLifeHours)\<close>,
  so it never increases with time and is \<open>0\<close> from the half-life on.

  The score an element receives is not the table entry but
  \<^verbatim>\<open>relevanceFactors[type] || relevanceFactors.default\<close>, and an entry that has
  decayed to \<open>0\<close> is falsy. Eight hours after the previous update a metric
  named \<^verbatim>\<open>Energy\<close> (physical, 6 hours) therefore does not score \<open>0\<close>: it scores
  the default category's \<open>1 - 8 / 18 = 5 / 9\<close>.
\<close>

theorem energy_score_after_8h:
  "calculateContextRelevance clockZero (8 * 3600000) energyEntry =
     JObj [(''timestamp'', JStr ''2025-05-01T00:00:00.000Z''),
           (''raw_input'', JStr ''tired''),
           (''processed_status'',
              JObj [(''metrics'', JArr [JObj [(''name'', JStr ''Energy''),
                                              (''relevance_score'', JNum (5 / 9))]]),
                    (''highlights'', JArr []),
                    (''persistent_context'', JArr [])])]"
  by (simp add: relevance_eval)

text \<open>
  With that score the metric passes the filter at the default threshold, where
  the specification's first scenario expects it to be dropped.
\<close>

theorem energy_score_after_8h_witness:
  "js_prop (js_prop (filterRelevantContext
                       (calculateContextRelevance clockZero (8 * 3600000) energyEntry)
                       (JNum (3 / 10)))
             ''processed_status'') ''metrics'' =
   JArr [JObj [(''name'', JStr ''Energy''), (''relevance_score'', JNum (5 / 9))]]"
  unfolding energy_score_after_8h
  by (simp add: filterRelevantContext_def filterRelevantContext_try_def filterOrEmpty_def
        keepRelevant_def get_prop_def effectiveThreshold_def bindE_def set_prop_def)

text \<open>
  Five hours after the update the same metric scores \<open>1 / 6\<close>: from the fifth
  to the eighth hour its score has gone up.
\<close>

lemma energy_score_after_5h:
  "calculateContextRelevance clockZero (5 * 3600000) energyEntry =
     JObj [(''timestamp'', JStr ''2025-05-01T00:00:00.000Z''),
           (''raw_input'', JStr ''tired''),
           (''processed_status'',
              JObj [(''metrics'', JArr [JObj [(''name'', JStr ''Energy''),
                                              (''relevance_score'', JNum (1 / 6))]]),
                    (''highlights'', JArr []),
                    (''persistent_context'', JArr [])])]"
  by (simp add: relevance_eval)

subsection \<open>Context Filter\<close>

lemma effectiveThreshold_spec: "effectiveThreshold threshold = thresholdBySpec threshold"
  by (cases threshold) (auto simp: effectiveThreshold_def thresholdBySpec_def)

lemma keepRelevant_ok: "\<not> nullish m \<Longrightarrow> keepRelevant t m = Inr (retainedBySpec t m)"
  by (simp add: keepRelevant_def get_prop_def bindE_def retainedBySpec_def)

lemma filterOrEmpty_ok:
  assumes "elementsOk v"
  shows "filterOrEmpty (keepRelevant t) v = Inr (filter (retainedBySpec t) (arrayOrEmpty v))"
proof (cases "truthy v")
  case False
  then show ?thesis by (cases v) (auto simp: filterOrEmpty_def arrayOrEmpty_def)
next
  case True
  with assms obtain xs where v: "v = JArr xs" and ok: "list_all (\<lambda>x. \<not> nullish x) xs"
    by (cases v) (auto simp: elementsOk_def arrayOrEmpty_def)
  have "filterE (keepRelevant t) xs = Inr (filter (retainedBySpec t) xs)"
    using ok by (intro filterE_total keepRelevant_ok) (simp add: list_all_iff)
  then show ?thesis by (simp add: v filterOrEmpty_def arrayOrEmpty_def)
qed

lemma filterRelevantContext_arrays:
  assumes "truthy ctx" and "truthy (js_prop ctx ''processed_status'')"
    and "elementsOk (js_prop (js_prop ctx ''processed_status'') ''metrics'')"
    and "elementsOk (js_prop (js_prop ctx ''processed_status'') ''highlights'')"
    and "elementsOk (js_prop (js_prop ctx ''processed_status'') ''persistent_context'')"
    and "k \<in> {''metrics'', ''highlights'', ''persistent_context''}"
  shows "js_prop (js_prop (filterRelevantContext ctx threshold) ''processed_status'') k =
         JArr (filter (retainedBySpec (effectiveThreshold threshold))
                 (arrayOrEmpty (js_prop (js_prop ctx ''processed_status'') k)))"
  using assms
  by (auto simp: filterRelevantContext_def filterRelevantContext_try_def Let_def bindE_def
        filterOrEmpty_ok map_of_set_prop)

lemmas filter_eval =
  elementsOk_def arrayOrEmpty_def retainedBySpec_def thresholdBySpec_def scoredEntry_def

text \<open>
  Claim C2: for a scored snapshot and any threshold, each of \<^verbatim>\<open>metrics\<close>,
  \<^verbatim>\<open>highlights\<close> and \<^verbatim>\<open>persistent_context\<close> comes out as exactly its elements
  that carry a numeric \<^verbatim>\<open>relevance_score\<close> at or above the threshold, in their
  order; a threshold that is not a number in \<open>[0, 1]\<close> counts as \<open>0.3\<close>.
\<close>

theorem filter_retains_iff_scored:
  assumes "truthy ctx" and "truthy (js_prop ctx ''processed_status'')"
    and "elementsOk (js_prop (js_prop ctx ''processed_status'') ''metrics'')"
    and "elementsOk (js_prop (js_prop ctx ''processed_status'') ''highlights'')"
    and "elementsOk (js_prop (js_prop ctx ''processed_status'') ''persistent_context'')"
    and "k \<in> {''metrics'', ''highlights'', ''persistent_context''}"
  shows "js_prop (js_prop (filterRelevantContext ctx threshold) ''processed_status'') k =
         JArr (filter (retainedBySpec (thresholdBySpec threshold))
                 (arrayOrEmpty (js_prop (js_prop ctx ''processed_status'') k)))"
  using filterRelevantContext_arrays [OF assms] by (simp add: effectiveThreshold_spec)

text \<open>
  With the invalid threshold \<open>7\<close> the default \<open>0.3\<close> applies: the metric scored
  \<open>0.8\<close> stays, the one scored \<open>0.1\<close> and the unscored one go.
\<close>

theorem filter_retains_iff_scored_witness:
  "truthy scoredEntry \<and> truthy (js_prop scoredEntry ''processed_status'')
   \<and> elementsOk (js_prop (js_prop scoredEntry ''processed_status'') ''metrics'')
   \<and> elementsOk (js_prop (js_prop scoredEntry ''processed_status'') ''highlights'')
   \<and> elementsOk (js_prop (js_prop scoredEntry ''processed_status'') ''persistent_context'')
   \<and> js_prop (js_prop (filterRelevantContext scoredEntry (JNum 7)) ''processed_status'')
        ''metrics'' =
       JArr [JObj [(''name'', JStr ''Focus''), (''relevance_score'', JNum (4 / 5))]]"
proof -
  have h1: "truthy scoredEntry" by (simp add: scoredEntry_def)
  have h2: "truthy (js_prop scoredEntry ''processed_status'')" by (simp add: scoredEntry_def)
  have h3: "elementsOk (js_prop (js_prop scoredEntry ''processed_status'') ''metrics'')"
    by (simp add: filter_eval)
  have h4: "elementsOk (js_prop (js_prop scoredEntry ''processed_status'') ''highlights'')"
    by (simp add: filter_eval)
  have h5: "elementsOk (js_prop (js_prop scoredEntry ''processed_status'') ''persistent_context'')"
    by (simp add: filter_eval)
  have h6: "''metrics'' \<in> {''metrics'', ''highlights'', ''persistent_context''}" by simp
  have "js_prop (js_prop (filterRelevantContext scoredEntry (JNum 7)) ''processed_status'')
          ''metrics'' =
        JArr [JObj [(''name'', JStr ''Focus''), (''relevance_score'', JNum (4 / 5))]]"
    using filter_retains_iff_scored [OF h1 h2 h3 h4 h5 h6, of "JNum 7"]
    by (simp add: filter_eval)
  with h1 h2 h3 h4 h5 show ?thesis by blast
qed

subsection \<open>An unparseable timestamp\<close>

lemma calculateContextRelevance_unparseable:
  assumes "truthy previousStatus" and "truthy (js_prop previousStatus ''timestamp'')"
    and "truthy (js_prop previousStatus ''processed_status'')"
    and "parseDate (js_prop previousStatus ''timestamp'') = None"
  shows "calculateContextRelevance parseDate now previousStatus = previousStatus"
  using assms by (simp add: calculateContextRelevance_def calculateContextRelevance_try_def)

text \<open>
  Claim C6, as stated: after an unparseable timestamp the unscored items are
  kept by the filter. They are not: the entry comes back as it was, its metric
  has no score, and the filter at threshold \<open>0.3\<close> removes it.
\<close>

theorem unscored_metric_dropped:
  "calculateContextRelevance neverParses 0 energyEntry = energyEntry
   \<and> js_prop (js_prop energyEntry ''processed_status'') ''metrics'' =
       JArr [JObj [(''name'', JStr ''Energy'')]]
   \<and> js_prop (js_prop (filterRelevantContext
                          (calculateContextRelevance neverParses 0 energyEntry) (JNum (3 / 10)))
                ''processed_status'') ''metrics'' = JArr []"
  by (simp add: relevance_eval filterRelevantContext_def filterRelevantContext_try_def
        filterOrEmpty_def keepRelevant_def get_prop_def effectiveThreshold_def)

text \<open>
  When an array field is neither absent nor an array without \<^verbatim>\<open>null\<close> elements,
  the filter's \<^verbatim>\<open>try\<close> block throws and the entry comes back unfiltered.
\<close>

lemma filterE_fails:
  "\<not> list_all (\<lambda>x. \<not> nullish x) xs \<Longrightarrow> filterE (keepRelevant t) xs = Inl TypeError"
proof (induction xs)
  case Nil
  then show ?case by simp
next
  case (Cons x xs)
  show ?case
  proof (cases "nullish x")
    case True
    then show ?thesis by (simp add: keepRelevant_def get_prop_def bindE_def)
  next
    case False
    with Cons show ?thesis by (simp add: keepRelevant_ok)
  qed
qed

lemma filterOrEmpty_fails:
  "\<not> elementsOk v \<Longrightarrow> filterOrEmpty (keepRelevant t) v = Inl TypeError"
  by (cases v) (auto simp: elementsOk_def filterOrEmpty_def arrayOrEmpty_def filterE_fails)

lemma filterRelevantContext_unfiltered:
  assumes "truthy ctx" and "truthy (js_prop ctx ''processed_status'')"
    and "\<not> (elementsOk (js_prop (js_prop ctx ''processed_status'') ''metrics'')
            \<and> elementsOk (js_prop (js_prop ctx ''processed_status'') ''highlights'')
            \<and> elementsOk (js_prop (js_prop ctx ''processed_status'') ''persistent_context''))"
  shows "filterRelevantContext ctx threshold = ctx"
proof -
  have "filterRelevantContext_try ctx t = Inl TypeError" for t
    using assms(3)
    by (cases "elementsOk (js_prop (js_prop ctx ''processed_status'') ''metrics'')";
        cases "elementsOk (js_prop (js_prop ctx ''processed_status'') ''highlights'')";
        cases "elementsOk (js_prop (js_prop ctx ''processed_status'') ''persistent_context'')")
       (simp_all add: filterRelevantContext_try_def Let_def bindE_def filterOrEmpty_ok
          filterOrEmpty_fails)
  then show ?thesis using assms(1,2) by (simp add: filterRelevantContext_def)
qed

text \<open>
  Claim C6, amended: with an unparseable timestamp the Relevance Model does not
  throw. When the entry, its \<^verbatim>\<open>timestamp\<close> or its \<^verbatim>\<open>processed_status\<close> is
  missing (falsy), it returns \<^verbatim>\<open>null\<close>, and so does the filter. Otherwise it
  returns the entry unchanged, with no score added, and the filter that follows
  does one of two things. When each of \<^verbatim>\<open>metrics\<close>, \<^verbatim>\<open>highlights\<close> and
  \<^verbatim>\<open>persistent_context\<close> is absent (falsy) or an array without \<^verbatim>\<open>null\<close> or
  \<^verbatim>\<open>undefined\<close> elements, it keeps of each array only the elements that already
  carry a numeric \<^verbatim>\<open>relevance_score\<close> at or above the threshold (\<open>0.3\<close> when the
  threshold is not a number in \<open>[0, 1]\<close>), so every unscored item is dropped.
  When one of the three fields is anything else, the filter returns the entry
  unfiltered.
\<close>

theorem unparseable_timestamp_then_filter:
  assumes "parseDate (js_prop previousStatus ''timestamp'') = None"
  shows "if truthy previousStatus \<and> truthy (js_prop previousStatus ''timestamp'')
            \<and> truthy (js_prop previousStatus ''processed_status'')
         then calculateContextRelevance parseDate now previousStatus = previousStatus
              \<and> (if elementsOk (js_prop (js_prop previousStatus ''processed_status'') ''metrics'')
                     \<and> elementsOk (js_prop (js_prop previousStatus ''processed_status'')
                                     ''highlights'')
                     \<and> elementsOk (js_prop (js_prop previousStatus ''processed_status'')
                                     ''persistent_context'')
                  then \<forall>k \<in> {''metrics'', ''highlights'', ''persistent_context''}.
                         js_prop (js_prop (filterRelevantContext
                                    (calculateContextRelevance parseDate now previousStatus)
                                    threshold)
                                  ''processed_status'') k =
                         JArr (filter (retainedBySpec (thresholdBySpec threshold))
                                 (arrayOrEmpty
                                    (js_prop (js_prop previousStatus ''processed_status'') k)))
                  else filterRelevantContext
                         (calculateContextRelevance parseDate now previousStatus) threshold =
                       previousStatus)
         else calculateContextRelevance parseDate now previousStatus = JNull
              \<and> filterRelevantContext
                    (calculateContextRelevance parseDate now previousStatus) threshold = JNull"
proof (cases "truthy previousStatus \<and> truthy (js_prop previousStatus ''timestamp'')
                \<and> truthy (js_prop previousStatus ''processed_status'')")
  case False
  then have "calculateContextRelevance parseDate now previousStatus = JNull"
    by (auto simp: calculateContextRelevance_def)
  moreover have "filterRelevantContext JNull threshold = JNull"
    by (simp add: filterRelevantContext_def)
  ultimately show ?thesis by (subst if_not_P [OF False]) simp
next
  case True
  then have t1: "truthy previousStatus" and t2: "truthy (js_prop previousStatus ''timestamp'')"
    and t3: "truthy (js_prop previousStatus ''processed_status'')" by simp_all
  have same: "calculateContextRelevance parseDate now previousStatus = previousStatus"
    using t1 t2 t3 assms by (rule calculateContextRelevance_unparseable)
  show ?thesis
  proof (cases "elementsOk (js_prop (js_prop previousStatus ''processed_status'') ''metrics'')
                \<and> elementsOk (js_prop (js_prop previousStatus ''processed_status'') ''highlights'')
                \<and> elementsOk (js_prop (js_prop previousStatus ''processed_status'')
                                ''persistent_context'')")
    case ok: True
    then have e1: "elementsOk (js_prop (js_prop previousStatus ''processed_status'') ''metrics'')"
      and e2: "elementsOk (js_prop (js_prop previousStatus ''processed_status'') ''highlights'')"
      and e3: "elementsOk (js_prop (js_prop previousStatus ''processed_status'')
                 ''persistent_context'')" by simp_all
    have "js_prop (js_prop (filterRelevantContext previousStatus threshold)
                     ''processed_status'') k =
          JArr (filter (retainedBySpec (thresholdBySpec threshold))
                  (arrayOrEmpty (js_prop (js_prop previousStatus ''processed_status'') k)))"
      if "k \<in> {''metrics'', ''highlights'', ''persistent_context''}" for k
      using filterRelevantContext_arrays [OF t1 t3 e1 e2 e3 that, of threshold]
      by (simp add: effectiveThreshold_spec)
    then show ?thesis
      unfolding same by (subst if_P [OF True], subst if_P [OF ok]) (simp add: same)
  next
    case bad: False
    have "filterRelevantContext previousStatus threshold = previousStatus"
      using t1 t3 bad by (rule filterRelevantContext_unfiltered)
    then show ?thesis
      unfolding same by (subst if_P [OF True], subst if_not_P [OF bad]) (simp add: same)
  qed
qed

text \<open>
  The entry with the single unscored metric \<^verbatim>\<open>Energy\<close>, under a clock that
  parses no timestamp and with the threshold \<open>0.5\<close>: the entry comes back
  unchanged and the filter leaves no metric.
\<close>

theorem unparseable_timestamp_then_filter_witness:
  "neverParses (js_prop energyEntry ''timestamp'') = None
   \<and> truthy energyEntry \<and> truthy (js_prop energyEntry ''timestamp'')
   \<and> truthy (js_prop energyEntry ''processed_status'')
   \<and> elementsOk (js_prop (js_prop energyEntry ''processed_status'') ''metrics'')
   \<and> elementsOk (js_prop (js_prop energyEntry ''processed_status'') ''highlights'')
   \<and> elementsOk (js_prop (js_prop energyEntry ''processed_status'') ''persistent_context'')
   \<and> calculateContextRelevance neverParses 1000 energyEntry = energyEntry
   \<and> js_prop (js_prop (filterRelevantContext
                          (calculateContextRelevance neverParses 1000 energyEntry) (JNum (1 / 2)))
                ''processed_status'') ''metrics'' = JArr []"
proof -
  have h0: "neverParses (js_prop energyEntry ''timestamp'') = None" by (simp add: neverParses_def)
  have h1: "truthy energyEntry" by (simp add: energyEntry_def)
  have h2: "truthy (js_prop energyEntry ''timestamp'')" by (simp add: energyEntry_def)
  have h3: "truthy (js_prop energyEntry ''processed_status'')" by (simp add: energyEntry_def)
  have h5: "elementsOk (js_prop (js_prop energyEntry ''processed_status'') ''metrics'')"
    by (simp add: energyEntry_def elementsOk_def arrayOrEmpty_def)
  have h6: "elementsOk (js_prop (js_prop energyEntry ''processed_status'') ''highlights'')"
    by (simp add: energyEntry_def elementsOk_def arrayOrEmpty_def)
  have h7: "elementsOk (js_prop (js_prop energyEntry ''processed_status'') ''persistent_context'')"
    by (simp add: energyEntry_def elementsOk_def arrayOrEmpty_def)
  have f: "filter (retainedBySpec (thresholdBySpec (JNum (1 / 2))))
              (arrayOrEmpty (js_prop (js_prop energyEntry ''processed_status'') ''metrics'')) = []"
    by (simp add: energyEntry_def arrayOrEmpty_def retainedBySpec_def)
  have "calculateContextRelevance neverParses 1000 energyEntry = energyEntry
        \<and> js_prop (js_prop (filterRelevantContext
                          (calculateContextRelevance neverParses 1000 energyEntry) (JNum (1 / 2)))
                ''processed_status'') ''metrics'' = JArr []"
    using unparseable_timestamp_then_filter
            [where parseDate = neverParses and now = 1000 and threshold = "JNum (1 / 2)"
               and previousStatus = energyEntry, OF h0]
          h1 h2 h3 h5 h6 h7 f
    by auto
  with h0 h1 h2 h3 h5 h6 h7 show ?thesis by blast
qed

subsection \<open>Numeric levels\<close>

















subsection \<open>State Tracker\<close>










lemmas state_eval =
  updatePersonalStateTimes_def updateState_def prevStateMap_def arrayOrEmpty_def
  getTimeSinceUpdate_def mathRound_def updateTimeElapsed_def parseInt10_def
  parseInt10_string_def numberToString_def int_to_string_def nat_to_string.simps
  isWhiteSpace_def digitVal_def js_or_def set_prop_def clockZero_def noFraction_def
  hungerJustNow_def hunger4hAgo_def hungerLevel1_def roundToDouble_def bitlen.simps



text \<open>
  Claim C5: when the current update gives no \<^verbatim>\<open>time_since_last\<close> and the
  previous state had one, the new value is the previous one advanced by the
  time since the previous snapshot, never \<^verbatim>\<open>just now\<close> of the code's own making.

  A previous value of \<^verbatim>\<open>just now\<close> is passed on unchanged: two hours after
  the previous snapshot the state still reads \<^verbatim>\<open>just now\<close>, although the
  update did not say so.
\<close>

theorem just_now_kept_after_two_hours:
  "updatePersonalStateTimes noFraction clockZero (2 * 3600000)
      (JArr [hungerJustNow]) (JArr [hungerLevel1]) (JStr ''2025-05-01T00:00:00.000Z'') =
   JArr [JObj [(''name'', JStr ''Hunger''), (''level'', JNum 1),
               (''trend'', JStr ''decreasing''), (''time_since_last'', JStr ''just now'')]]"
  by (simp add: state_eval)

text \<open>Any other previous value is extended by the elapsed time.\<close>

lemma four_hours_ago_extended:
  "updatePersonalStateTimes noFraction clockZero (2 * 3600000)
      (JArr [hunger4hAgo]) (JArr [hungerLevel1]) (JStr ''2025-05-01T00:00:00.000Z'') =
   JArr [JObj [(''name'', JStr ''Hunger''), (''level'', JNum 1),
               (''trend'', JStr ''decreasing''), (''time_since_last'', JStr ''4h ago + 2h'')]]"
  by (simp add: state_eval)

subsection \<open>Validation/Repair\<close>

text \<open>Every fallback snapshot has the five arrays, and one error naming the cause.\<close>

lemma createDefaultStatus_shape:
  "hasSnapshotArrays (createDefaultStatus text reason)
   \<and> js_prop (createDefaultStatus text reason) ''errors'' =
        JArr [JStr (''LLM Processing Error: '' @ reason)]"
  by (simp add: createDefaultStatus_def hasSnapshotArrays_def)

text \<open>
  Claim C4: whatever the input text, the result has the full snapshot shape,
  every required array present.

  A text that parses is returned as parsed, with no check of its shape. The
  completion \<^verbatim>\<open>{}\<close> comes back as the empty object: no \<^verbatim>\<open>metrics\<close>, no
  \<^verbatim>\<open>errors\<close>, no array at all.
\<close>

theorem validate_returns_unvalidated:
  assumes "JSON_parse ''{}'' = Some (JObj [])"
  shows "validateAndRepairStatusJSON JSON_parse (JStr ''{}'') originalText = JObj []
         \<and> \<not> hasSnapshotArrays (validateAndRepairStatusJSON JSON_parse (JStr ''{}'') originalText)"
  using assms
  by (simp add: validateAndRepairStatusJSON_def trim_def isWhiteSpace_def hasSnapshotArrays_def)

theorem validate_returns_unvalidated_witness:
  "emptyObjectParser ''{}'' = Some (JObj [])
   \<and> validateAndRepairStatusJSON emptyObjectParser (JStr ''{}'') ''feeling fine'' = JObj []
   \<and> js_prop (validateAndRepairStatusJSON emptyObjectParser (JStr ''{}'') ''feeling fine'')
        ''metrics'' = JUndefined"
proof -
  have h: "emptyObjectParser ''{}'' = Some (JObj [])" by (simp add: emptyObjectParser_def)
  from validate_returns_unvalidated
         [where JSON_parse = emptyObjectParser and originalText = "''feeling fine''", OF h] h
  show ?thesis by simp
qed

text \<open>
  Claim C10: a text that parses, directly or after the fenced or braced block
  has been cut out of it, is returned exactly as parsed: nothing is validated,
  defaulted or added.
\<close>

theorem validate_returns_parsed_as_is:
  assumes "trim s \<noteq> []"
  shows "(JSON_parse s = Some v \<longrightarrow>
            validateAndRepairStatusJSON JSON_parse (JStr s) originalText = v)
       \<and> (JSON_parse s = None \<and> jsonMatch s = Some (ga, gb) \<and> js_or ga gb = JStr e \<and> e \<noteq> []
            \<and> JSON_parse e = Some v \<longrightarrow>
            validateAndRepairStatusJSON JSON_parse (JStr s) originalText = v)"
  using assms by (simp add: validateAndRepairStatusJSON_def)

lemmas match_eval = fencedEmptyObject_def jsonMatch.simps fencedAt_def bracedAt_def startsWith_def
  isWhiteSpace_def lazyGroup.simps trim_def js_or_def emptyObjectParser_def

text \<open>
  The empty object inside a fenced block: the direct parse fails, the pattern
  extracts \<^verbatim>\<open>{}\<close>, and the result is the empty object as parsed.
\<close>

theorem validate_returns_parsed_as_is_witness:
  "trim fencedEmptyObject \<noteq> []
   \<and> emptyObjectParser fencedEmptyObject = None
   \<and> jsonMatch fencedEmptyObject = Some (JStr ''{}'', JUndefined)
   \<and> js_or (JStr ''{}'') JUndefined = JStr ''{}''
   \<and> emptyObjectParser ''{}'' = Some (JObj [])
   \<and> validateAndRepairStatusJSON emptyObjectParser (JStr fencedEmptyObject) ''feeling fine'' = JObj []"
proof -
  have h1: "trim fencedEmptyObject \<noteq> []" by (simp add: match_eval)
  have h2: "emptyObjectParser fencedEmptyObject = None" by (simp add: match_eval)
  have h3: "jsonMatch fencedEmptyObject = Some (JStr ''{}'', JUndefined)" by (simp add: match_eval)
  have h4: "js_or (JStr ''{}'') JUndefined = JStr ''{}''" by (simp add: js_or_def)
  have h5: "emptyObjectParser ''{}'' = Some (JObj [])" by (simp add: emptyObjectParser_def)
  from validate_returns_parsed_as_is
         [where JSON_parse = emptyObjectParser and v = "JObj []" and ga = "JStr ''{}''"
            and gb = JUndefined and e = "''{}''" and originalText = "''feeling fine''", OF h1]
    h2 h3 h4 h5
  have "validateAndRepairStatusJSON emptyObjectParser (JStr fencedEmptyObject) ''feeling fine'' = JObj []"
    by simp
  with h1 h2 h3 h4 h5 show ?thesis by blast
qed


subsection \<open>Status history\<close>

lemma kv_get_put: "kv_get (kv_put kv k v) k' = (if k' = k then v else kv_get kv k')"
  by (simp add: kv_get_def kv_put_def update_conv')

lemma keys_differ: "historyKey userId \<noteq> latestKey userId"
  by (simp add: historyKey_def latestKey_def)

lemma trimmed_lastEntries: "0 < C \<Longrightarrow> trimmed C xs = lastEntries C xs"
  by (auto simp: trimmed_def lastEntries_def nat_diff_distrib')

lemma lastEntries_twice: "lastEntries C (lastEntries C xs @ ys) = lastEntries C (xs @ ys)"
proof (cases "length xs \<le> nat C")
  case True
  then show ?thesis by (simp add: lastEntries_def)
next
  case False
  then obtain a where n: "length xs = a + nat C"
    by (metis add.commute le_add_diff_inverse nat_le_linear)
  show ?thesis by (simp add: lastEntries_def n add.commute)
qed

lemma storeUserStatus_success:
  assumes "userId \<noteq> []" and "truthy processedStatus"
  shows "storeUserStatus userId rawInput processedStatus (Some kv) historyLimit now =
     (statusEntry (rawInput, processedStatus, now),
      Some (kv_put (kv_put kv (historyKey userId)
               (JObj [(''history'',
                  JArr (trimmed historyLimit
                          (historyOf (kv_get kv (historyKey userId))
                             @ [statusEntry (rawInput, processedStatus, now)])))]))
             (latestKey userId) (statusEntry (rawInput, processedStatus, now))))"
  using assms by (simp add: storeUserStatus_def statusEntry_def trimmed_def Let_def)

lemma getUserStatusHistory_all:
  "userId \<noteq> [] \<Longrightarrow> getUserStatusHistory userId (Some kv) 0 = historyOf (kv_get kv (historyKey userId))"
  by (cases "js_prop (kv_get kv (historyKey userId)) ''history''")
     (auto simp: getUserStatusHistory_def historyOf_def Let_def)

lemma historyOf_stored: "historyOf (JObj [(''history'', JArr h)]) = h"
  by (simp add: historyOf_def)

lemma storeAll_history:
  assumes "userId \<noteq> []" and "0 < C" and "list_all (\<lambda>u. truthy (fst (snd u))) updates"
    and "updates \<noteq> []"
  shows "\<exists>kv'. storeAll userId C (Some kv) updates = Some kv'
          \<and> historyOf (kv_get kv' (historyKey userId)) =
              lastEntries C (historyOf (kv_get kv (historyKey userId)) @ map statusEntry updates)"
  using assms(3,4)
proof (induction updates arbitrary: kv)
  case Nil
  then show ?case by simp
next
  case (Cons u us)
  obtain rawInput processedStatus now where u: "u = (rawInput, processedStatus, now)"
    by (cases u) auto
  from Cons.prems have tr: "truthy processedStatus" by (simp add: u)
  define kv1 where "kv1 = kv_put (kv_put kv (historyKey userId)
      (JObj [(''history'', JArr (lastEntries C (historyOf (kv_get kv (historyKey userId)) @ [statusEntry u])))]))
      (latestKey userId) (statusEntry u)"
  have step: "storeUserStatus userId rawInput processedStatus (Some kv) C now = (statusEntry u, Some kv1)"
    using storeUserStatus_success [OF assms(1) tr, of rawInput kv C now]
    by (simp add: kv1_def u trimmed_lastEntries [OF assms(2)])
  have h1: "historyOf (kv_get kv1 (historyKey userId)) =
            lastEntries C (historyOf (kv_get kv (historyKey userId)) @ [statusEntry u])"
    by (simp add: kv1_def kv_get_put keys_differ historyOf_stored)
  show ?case
  proof (cases "us = []")
    case True
    then show ?thesis using step h1 by (simp add: u)
  next
    case False
    from Cons.prems have "list_all (\<lambda>u. truthy (fst (snd u))) us" by simp
    from Cons.IH [OF this False, of kv1] obtain kv' where
      "storeAll userId C (Some kv1) us = Some kv'"
      "historyOf (kv_get kv' (historyKey userId)) =
         lastEntries C (historyOf (kv_get kv1 (historyKey userId)) @ map statusEntry us)"
      by blast
    then show ?thesis using step h1 by (simp add: u lastEntries_twice)
  qed
qed

text \<open>
  Claim C7: after \<open>N\<close> successful stores under the cap \<open>C\<close>, with \<open>N > C\<close>, the
  stored history is exactly the last \<open>C\<close> entries in the order they were
  appended, whatever the store held before. The cap is positive: a limit of
  \<open>0\<close> or less switches the trimming off.
\<close>

theorem history_cap:
  assumes "userId \<noteq> []" and "0 < C" and "list_all (\<lambda>u. truthy (fst (snd u))) updates"
    and "C < int (length updates)"
  shows "getUserStatusHistory userId (storeAll userId C (Some kv) updates) 0 =
           map statusEntry (drop (length updates - nat C) updates)
         \<and> int (length (getUserStatusHistory userId (storeAll userId C (Some kv) updates) 0)) = C"
proof -
  from assms(2,4) have ne: "updates \<noteq> []" by auto
  from storeAll_history [OF assms(1-3) ne, of kv] obtain kv' where
    s: "storeAll userId C (Some kv) updates = Some kv'" and
    h: "historyOf (kv_get kv' (historyKey userId)) =
          lastEntries C (historyOf (kv_get kv (historyKey userId)) @ map statusEntry updates)"
    by blast
  have "lastEntries C (historyOf (kv_get kv (historyKey userId)) @ map statusEntry updates) =
        map statusEntry (drop (length updates - nat C) updates)"
    using assms(2,4) by (auto simp: lastEntries_def drop_map)
  then show ?thesis using assms(1,2,4) by (simp add: s h getUserStatusHistory_all)
qed

text \<open>Three updates under a cap of two: the second and the third remain, in that order.\<close>

theorem history_cap_witness:
  "''42'' \<noteq> [] \<and> (0::int) < 2 \<and> list_all (\<lambda>u. truthy (fst (snd u))) threeUpdates
   \<and> 2 < int (length threeUpdates)
   \<and> getUserStatusHistory ''42'' (storeAll ''42'' 2 (Some []) threeUpdates) 0 =
       [JObj [(''timestamp'', JStr ''2025-05-01T11:00:00.000Z''), (''raw_input'', JStr ''two''),
              (''processed_status'', JObj [(''overall_status'', JStr ''2'')])],
        JObj [(''timestamp'', JStr ''2025-05-01T12:00:00.000Z''), (''raw_input'', JStr ''three''),
              (''processed_status'', JObj [(''overall_status'', JStr ''3'')])]]"
proof -
  have h1: "''42'' \<noteq> []" by simp
  have h2: "(0::int) < 2" by simp
  have h3: "list_all (\<lambda>u. truthy (fst (snd u))) threeUpdates" by (simp add: threeUpdates_def)
  have h4: "2 < int (length threeUpdates)" by (simp add: threeUpdates_def)
  have "getUserStatusHistory ''42'' (storeAll ''42'' 2 (Some []) threeUpdates) 0 =
       [JObj [(''timestamp'', JStr ''2025-05-01T11:00:00.000Z''), (''raw_input'', JStr ''two''),
              (''processed_status'', JObj [(''overall_status'', JStr ''2'')])],
        JObj [(''timestamp'', JStr ''2025-05-01T12:00:00.000Z''), (''raw_input'', JStr ''three''),
              (''processed_status'', JObj [(''overall_status'', JStr ''3'')])]]"
    using history_cap [OF h1 h2 h3 h4, of "[]"]
    by (simp add: threeUpdates_def statusEntry_def)
  with h1 h2 h3 h4 show ?thesis by blast
qed

text \<open>
  Claim C8: after a successful store the latest pointer and the last element
  of the stored history are the same entry, the one just created from the
  clock, the raw input and the snapshot.
\<close>

theorem latest_is_last_of_history:
  assumes "storeUserStatus userId rawInput processedStatus kvStore historyLimit now
             = (entry, kvStore')"
    and "entry \<noteq> JNull"
  shows "entry = statusEntry (rawInput, processedStatus, now)
         \<and> getLatestUserStatus userId kvStore' = entry
         \<and> getUserStatusHistory userId kvStore' 0 \<noteq> []
         \<and> last (getUserStatusHistory userId kvStore' 0) = entry"
proof -
  from assms obtain kv where kvs: "kvStore = Some kv"
    by (cases kvStore) (auto simp: storeUserStatus_def)
  from assms have ok: "userId \<noteq> []" "truthy processedStatus"
    by (auto simp: storeUserStatus_def kvs split: if_splits)
  define h where "h = historyOf (kv_get kv (historyKey userId)) @ [statusEntry (rawInput, processedStatus, now)]"
  define h' where "h' = trimmed historyLimit h"
  have hl: "h' \<noteq> [] \<and> last h' = statusEntry (rawInput, processedStatus, now)"
    by (auto simp: h'_def h_def trimmed_def)
  from storeUserStatus_success [OF ok, of rawInput kv historyLimit now] assms(1)
  have e: "entry = statusEntry (rawInput, processedStatus, now)"
    and k: "kvStore' = Some (kv_put (kv_put kv (historyKey userId) (JObj [(''history'', JArr h')]))
             (latestKey userId) (statusEntry (rawInput, processedStatus, now)))"
    by (auto simp: kvs h_def h'_def)
  have "getLatestUserStatus userId kvStore' = entry"
    using ok by (simp add: getLatestUserStatus_def k e kv_get_put js_or_def statusEntry_def)
  moreover have "getUserStatusHistory userId kvStore' 0 = h'"
    using ok by (simp add: k getUserStatusHistory_all kv_get_put keys_differ historyOf_stored)
  ultimately show ?thesis using hl e by simp
qed


theorem latest_is_last_of_history_witness:
  "storeUserStatus ''42'' (JStr ''one'') (JObj [(''overall_status'', JStr ''1'')]) (Some []) 20
      ''2025-05-01T10:00:00.000Z'' =
     (statusEntry (JStr ''one'', JObj [(''overall_status'', JStr ''1'')],
                   ''2025-05-01T10:00:00.000Z''),
      Some [(''user:42:status_history'',
               JObj [(''history'', JArr [statusEntry (JStr ''one'',
                        JObj [(''overall_status'', JStr ''1'')], ''2025-05-01T10:00:00.000Z'')])]),
            (''user:42:latest_status'',
               statusEntry (JStr ''one'', JObj [(''overall_status'', JStr ''1'')],
                            ''2025-05-01T10:00:00.000Z''))])
   \<and> statusEntry (JStr ''one'', JObj [(''overall_status'', JStr ''1'')],
                   ''2025-05-01T10:00:00.000Z'') \<noteq> JNull
   \<and> getLatestUserStatus ''42''
        (snd (storeUserStatus ''42'' (JStr ''one'') (JObj [(''overall_status'', JStr ''1'')])
                (Some []) 20 ''2025-05-01T10:00:00.000Z'')) =
       last (getUserStatusHistory ''42''
        (snd (storeUserStatus ''42'' (JStr ''one'') (JObj [(''overall_status'', JStr ''1'')])
                (Some []) 20 ''2025-05-01T10:00:00.000Z'')) 0)"
proof -
  have h1: "storeUserStatus ''42'' (JStr ''one'') (JObj [(''overall_status'', JStr ''1'')])
      (Some []) 20 ''2025-05-01T10:00:00.000Z'' =
     (statusEntry (JStr ''one'', JObj [(''overall_status'', JStr ''1'')],
                   ''2025-05-01T10:00:00.000Z''),
      Some [(''user:42:status_history'',
               JObj [(''history'', JArr [statusEntry (JStr ''one'',
                        JObj [(''overall_status'', JStr ''1'')], ''2025-05-01T10:00:00.000Z'')])]),
            (''user:42:latest_status'',
               statusEntry (JStr ''one'', JObj [(''overall_status'', JStr ''1'')],
                            ''2025-05-01T10:00:00.000Z''))])"
    by (simp add: storeUserStatus_def statusEntry_def kv_get_def kv_put_def historyOf_def
          historyKey_def latestKey_def Let_def)
  have h2: "statusEntry (JStr ''one'', JObj [(''overall_status'', JStr ''1'')],
                   ''2025-05-01T10:00:00.000Z'') \<noteq> JNull"
    by (simp add: statusEntry_def)
  from latest_is_last_of_history [OF h1 h2] h1 h2 show ?thesis by simp
qed

subsection \<open>Purge\<close>

lemma deletePrefixedKeys_count:
  "deletePrefixedKeys kv prefix c n = (kv', n') \<Longrightarrow> n \<le> n'"
proof (induction kv prefix c n arbitrary: kv' n' rule: deletePrefixedKeys.induct)
  case (1 kv prefix c deletedCount)
  let ?r = "kv_list kv prefix c 100"
  show ?case
  proof (cases "list_complete ?r")
    case True
    with "1.prems" show ?thesis by (simp add: Let_def deletePrefixedKeys.simps [of kv])
  next
    case False
    with "1.prems" have
      "deletePrefixedKeys (foldl kv_delete kv (keys ?r)) prefix (cursor ?r)
         (deletedCount + int (length (keys ?r))) = (kv', n')"
      by (simp add: Let_def deletePrefixedKeys.simps [of kv])
    from "1.IH" [OF refl refl refl False this] show ?thesis by simp
  qed
qed

lemma kv_list_empty:
  "keysToList kv prefix c = [] \<Longrightarrow>
   kv_list kv prefix c limit = \<lparr> keys = [], list_complete = True, cursor = None \<rparr>"
  by (simp add: kv_list_def)

lemma deletePrefixedKeys_empty:
  "keysToList kv prefix None = [] \<Longrightarrow> deletePrefixedKeys kv prefix None n = (kv, n)"
  by (simp add: deletePrefixedKeys.simps [of kv] kv_list_empty)

lemma kv_list_keys_subset:
  "k \<in> set (keys (kv_list kv prefix c limit)) \<Longrightarrow> k \<in> set (keysToList kv prefix c)"
  by (auto simp: kv_list_def Let_def dest: in_set_takeD)

lemma collectActivityKeys_none:
  assumes "list_all (\<lambda>k. \<not> (startsWith k ''activity:'' \<and> truthy (kv_get kv k)
                           \<and> js_prop (kv_get kv k) ''creator'' = JStr userId)) (map fst kv)"
  shows "collectActivityKeys kv userId c acc = acc"
  using assms
proof (induction kv userId c acc rule: collectActivityKeys.induct)
  case (1 kv userId activityCursor activityKeysToDelete)
  let ?r = "kv_list kv ''activity:'' activityCursor 100"
  have none: "filter (\<lambda>key. truthy (kv_get kv key)
                              \<and> js_prop (kv_get kv key) ''creator'' = JStr userId)
               (keys ?r) = []"
  proof -
    have "\<not> (truthy (kv_get kv k) \<and> js_prop (kv_get kv k) ''creator'' = JStr userId)"
      if "k \<in> set (keys ?r)" for k
    proof -
      from that have "k \<in> set (keysToList kv ''activity:'' activityCursor)"
        by (rule kv_list_keys_subset)
      then have "k \<in> set (map fst kv)" "startsWith k ''activity:''"
        by (auto simp: keysToList_def)
      with "1.prems" show ?thesis by (auto simp: list_all_iff)
    qed
    then show ?thesis by (auto simp: filter_empty_conv)
  qed
  show ?case
  proof (cases "list_complete ?r")
    case True
    then show ?thesis by (simp add: collectActivityKeys.simps [of kv] none Let_def)
  next
    case False
    from "1.IH" [OF refl refl False "1.prems"] False show ?thesis
      by (simp add: collectActivityKeys.simps [of kv _ activityCursor] none Let_def)
  qed
qed

lemma purgeUserData_result:
  assumes "userId \<noteq> []"
  shows "\<exists>n kv'. purgeUserData userId (Some kv) = Inr (n, kv') \<and> 0 \<le> n"
proof -
  obtain kv1 n1 where s1: "deletePrefixedKeys kv (''user:'' @ userId @ '':'') None 0 = (kv1, n1)"
    by (cases "deletePrefixedKeys kv (''user:'' @ userId @ '':'') None 0") auto
  obtain kv2 n2 where s2: "deletePrefixedKeys kv1 (''profile:'' @ userId) None n1 = (kv2, n2)"
    by (cases "deletePrefixedKeys kv1 (''profile:'' @ userId) None n1") auto
  obtain kv3 n3 where s3: "deletePrefixedKeys kv2 (''log:interactions:'' @ userId) None n2 = (kv3, n3)"
    by (cases "deletePrefixedKeys kv2 (''log:interactions:'' @ userId) None n2") auto
  have "0 \<le> n3"
    using deletePrefixedKeys_count [OF s1] deletePrefixedKeys_count [OF s2]
      deletePrefixedKeys_count [OF s3] by simp
  then show ?thesis using assms s1 s2 s3 by (simp add: purgeUserData_def Let_def)
qed

lemma purgeUserData_empty:
  assumes "userId \<noteq> []" and "userDataEmpty userId kv"
  shows "purgeUserData userId (Some kv) = Inr (0, kv)"
  using assms
  by (simp add: purgeUserData_def userDataEmpty_def deletePrefixedKeys_empty
        collectActivityKeys_none Let_def)


text \<open>
  What a purge leaves behind. A page that is not the last one covers every key
  up to its cursor, so the deleting loop misses no key with the prefix and the
  collecting loop misses no activity of the user.
\<close>

lemma kv_delete_filter: "kv_delete kv a = filter (\<lambda>(k, v). k \<noteq> a) kv"
  by (induction kv) (auto simp: kv_delete_def)

lemma foldl_kv_delete: "foldl kv_delete kv ks = filter (\<lambda>(k, v). k \<notin> set ks) kv"
proof (induction ks arbitrary: kv)
  case Nil
  then show ?case by simp
next
  case (Cons a ks)
  have "foldl kv_delete kv (a # ks) = foldl kv_delete (kv_delete kv a) ks" by simp
  also have "\<dots> = filter (\<lambda>(k, v). k \<notin> set ks) (kv_delete kv a)" by (rule Cons.IH)
  also have "\<dots> = filter (\<lambda>(k, v). k \<notin> set (a # ks)) kv"
    unfolding kv_delete_filter by (auto simp: case_prod_unfold intro: filter_cong)
  finally show ?case .
qed

lemma keys_filter: "map fst (filter (\<lambda>(k, v). P k) kv) = filter P (map fst kv)"
  by (induction kv) auto

lemma kv_get_filter: "P k \<Longrightarrow> kv_get (filter (\<lambda>(k, v). P k) kv) k = kv_get kv k"
  by (induction kv) (auto simp: kv_get_def)

lemma keysToList_filter:
  "keysToList (filter (\<lambda>(k, v). P k) kv) prefix c = filter P (keysToList kv prefix c)"
  by (simp add: keysToList_def keys_filter conj_commute)

lemma sorted_take_mem:
  assumes "sorted S" and "distinct S" and "k \<in> set S" and "take n S \<noteq> []"
    and "k \<le> last (take n S)"
  shows "k \<in> set (take n S)"
proof (rule ccontr)
  assume out: "k \<notin> set (take n S)"
  have split: "S = take n S @ drop n S" by simp
  with assms(3) out have kd: "k \<in> set (drop n S)"
    by (metis Un_iff set_append)
  have l: "last (take n S) \<in> set (take n S)" using assms(4) by simp
  have "\<forall>x\<in>set (take n S). \<forall>y\<in>set (drop n S). x \<le> y"
    using assms(1) sorted_append [of "take n S" "drop n S"] by simp
  then have "last (take n S) \<le> k" using l kd by blast
  with assms(5) have "k = last (take n S)" by simp
  with l out show False by simp
qed

lemma complete_page:
  assumes "list_complete (kv_list kv prefix c limit)"
  shows "set (keys (kv_list kv prefix c limit)) = set (keysToList kv prefix c)"
  using assms by (simp add: kv_list_def Let_def)

lemma incomplete_page:
  assumes "\<not> list_complete (kv_list kv prefix c limit)" and "0 < limit"
  shows "\<exists>l. cursor (kv_list kv prefix c limit) = Some l \<and> afterCursor c l
           \<and> (\<forall>k \<in> set (keysToList kv prefix c).
                  k \<in> set (keys (kv_list kv prefix c limit)) \<or> l < k)"
proof -
  define S where "S = sort (remdups (keysToList kv prefix c))"
  define l where "l = last (take limit S)"
  have sd: "sorted S" "distinct S" and sS: "set S = set (keysToList kv prefix c)"
    by (simp_all add: S_def)
  from assms(1) have long: "limit < length S" by (simp add: kv_list_def Let_def S_def)
  then have "length (take limit S) = limit" by simp
  with assms(2) have ne: "take limit S \<noteq> []" by auto
  then have "l \<in> set (take limit S)" by (simp add: l_def)
  then have "l \<in> set S" by (rule in_set_takeD)
  then have ac: "afterCursor c l" by (auto simp: sS keysToList_def)
  have cur: "cursor (kv_list kv prefix c limit) = Some l"
    using long by (simp add: kv_list_def Let_def S_def l_def)
  have pg: "keys (kv_list kv prefix c limit) = take limit S"
    by (simp add: kv_list_def Let_def S_def)
  have "k \<in> set (take limit S) \<or> l < k" if "k \<in> set (keysToList kv prefix c)" for k
  proof (cases "l < k")
    case True
    then show ?thesis by simp
  next
    case False
    then have "k \<le> l" by simp
    with sorted_take_mem [OF sd _ ne] that show ?thesis by (simp add: sS l_def)
  qed
  with cur ac pg show ?thesis by auto
qed

lemma after_cursor_trans:
  "afterCursor c l \<Longrightarrow> l < k \<Longrightarrow> afterCursor c k"
  by (auto simp: afterCursor_def split: option.splits)

lemma deletePrefixedKeys_post:
  "deletePrefixedKeys kv prefix c n = (kv', n') \<Longrightarrow>
   \<exists>D. kv' = filter (\<lambda>(k, v). k \<notin> D) kv \<and> keysToList kv' prefix c = []"
proof (induction kv prefix c n arbitrary: kv' n' rule: deletePrefixedKeys.induct)
  case (1 kv prefix c deletedCount)
  let ?r = "kv_list kv prefix c 100"
  define kv1 where "kv1 = foldl kv_delete kv (keys ?r)"
  have kv1: "kv1 = filter (\<lambda>(k, v). k \<notin> set (keys ?r)) kv"
    by (simp add: kv1_def foldl_kv_delete)
  show ?case
  proof (cases "list_complete ?r")
    case True
    with "1.prems" have r: "kv' = kv1"
      by (simp add: Let_def deletePrefixedKeys.simps [of kv] kv1_def)
    have "keysToList kv1 prefix c = []"
      unfolding kv1 keysToList_filter using complete_page [OF True]
      by (auto simp: filter_empty_conv)
    with r kv1 show ?thesis by blast
  next
    case False
    with "1.prems" have rec:
      "deletePrefixedKeys kv1 prefix (cursor ?r)
         (deletedCount + int (length (keys ?r))) = (kv', n')"
      by (simp add: Let_def deletePrefixedKeys.simps [of kv] kv1_def)
    from "1.IH" [OF refl refl refl False rec [unfolded kv1_def]] obtain D where
      D: "kv' = filter (\<lambda>(k, v). k \<notin> D) kv1" and e: "keysToList kv' prefix (cursor ?r) = []"
      by (auto simp: kv1_def)
    from incomplete_page [OF False] obtain l where
      cur: "cursor ?r = Some l" and ac: "afterCursor c l" and
      cover: "\<forall>k \<in> set (keysToList kv prefix c). k \<in> set (keys ?r) \<or> l < k"
      by auto
    have all: "kv' = filter (\<lambda>(k, v). k \<notin> D \<union> set (keys ?r)) kv"
      unfolding D kv1 by (auto simp: case_prod_unfold intro: filter_cong)
    have "k \<notin> set (keysToList kv' prefix c)" for k
    proof
      assume k: "k \<in> set (keysToList kv' prefix c)"
      then have kK: "k \<in> set (keysToList kv prefix c)" and nd: "k \<notin> D \<union> set (keys ?r)"
        unfolding all keysToList_filter by auto
      with cover have "l < k" by auto
      moreover from k have "k \<in> set (map fst kv')" "startsWith k prefix"
        by (auto simp: keysToList_def)
      ultimately have "k \<in> set (keysToList kv' prefix (Some l))"
        by (auto simp: keysToList_def afterCursor_def)
      with e cur show False by simp
    qed
    then have "keysToList kv' prefix c = []" by (meson last_in_set)
    with all show ?thesis by blast
  qed
qed

lemma collectActivityKeys_set:
  "set (collectActivityKeys kv userId c acc) =
   set acc \<union> {k \<in> set (keysToList kv ''activity:'' c).
                 truthy (kv_get kv k) \<and> js_prop (kv_get kv k) ''creator'' = JStr userId}"
proof (induction kv userId c acc rule: collectActivityKeys.induct)
  case (1 kv userId activityCursor activityKeysToDelete)
  let ?r = "kv_list kv ''activity:'' activityCursor 100"
  let ?mine = "\<lambda>k. truthy (kv_get kv k) \<and> js_prop (kv_get kv k) ''creator'' = JStr userId"
  show ?case
  proof (cases "list_complete ?r")
    case True
    then show ?thesis
      using complete_page [OF True]
      by (auto simp: collectActivityKeys.simps [of kv _ activityCursor] Let_def)
  next
    case False
    from incomplete_page [OF False] obtain l where
      cur: "cursor ?r = Some l" and ac: "afterCursor activityCursor l" and
      cover: "\<forall>k \<in> set (keysToList kv ''activity:'' activityCursor).
                 k \<in> set (keys ?r) \<or> l < k"
      by auto
    have later: "set (keysToList kv ''activity:'' (Some l)) =
                 {k \<in> set (keysToList kv ''activity:'' activityCursor). l < k}"
      using ac by (auto simp: keysToList_def afterCursor_def split: option.splits)
    have sub: "set (keys ?r) \<subseteq> set (keysToList kv ''activity:'' activityCursor)"
      using kv_list_keys_subset by blast
    have "set (collectActivityKeys kv userId activityCursor activityKeysToDelete) =
          set (collectActivityKeys kv userId (cursor ?r)
                 (activityKeysToDelete @ filter ?mine (keys ?r)))"
      using False by (simp add: collectActivityKeys.simps [of kv _ activityCursor] Let_def)
    also have "\<dots> = set (activityKeysToDelete @ filter ?mine (keys ?r))
                 \<union> {k \<in> set (keysToList kv ''activity:'' (cursor ?r)). ?mine k}"
      using "1.IH" [OF refl refl False] by (simp add: Let_def)
    also have "\<dots> = set activityKeysToDelete
                 \<union> {k \<in> set (keysToList kv ''activity:'' activityCursor). ?mine k}"
      unfolding cur later using cover sub by auto
    finally show ?thesis .
  qed
qed

lemma purgeUserData_leaves_nothing:
  assumes "userId \<noteq> []" and "purgeUserData userId (Some kv) = Inr (n, kv')"
  shows "userDataEmpty userId kv'"
proof -
  define A where "A = collectActivityKeys kv userId None []"
  obtain kv1 n1 where s1: "deletePrefixedKeys kv (''user:'' @ userId @ '':'') None 0 = (kv1, n1)"
    by (cases "deletePrefixedKeys kv (''user:'' @ userId @ '':'') None 0") auto
  obtain kv2 n2 where s2: "deletePrefixedKeys kv1 (''profile:'' @ userId) None n1 = (kv2, n2)"
    by (cases "deletePrefixedKeys kv1 (''profile:'' @ userId) None n1") auto
  obtain kv3 n3 where s3: "deletePrefixedKeys kv2 (''log:interactions:'' @ userId) None n2 = (kv3, n3)"
    by (cases "deletePrefixedKeys kv2 (''log:interactions:'' @ userId) None n2") auto
  have res: "kv' = foldl kv_delete kv3 A"
    using assms s1 s2 s3 by (simp add: purgeUserData_def Let_def A_def)
  from deletePrefixedKeys_post [OF s1] obtain D1 where
    d1: "kv1 = filter (\<lambda>(k, v). k \<notin> D1) kv" and e1: "keysToList kv1 (''user:'' @ userId @ '':'') None = []"
    by blast
  from deletePrefixedKeys_post [OF s2] obtain D2 where
    d2: "kv2 = filter (\<lambda>(k, v). k \<notin> D2) kv1" and e2: "keysToList kv2 (''profile:'' @ userId) None = []"
    by blast
  from deletePrefixedKeys_post [OF s3] obtain D3 where
    d3: "kv3 = filter (\<lambda>(k, v). k \<notin> D3) kv2"
    and e3: "keysToList kv3 (''log:interactions:'' @ userId) None = []"
    by blast
  have d4: "kv' = filter (\<lambda>(k, v). k \<notin> set A) kv3" by (simp add: res foldl_kv_delete)
  define D where "D = D1 \<union> D2 \<union> D3 \<union> set A"
  have all: "kv' = filter (\<lambda>(k, v). k \<notin> D) kv"
    unfolding d4 d3 d2 d1 D_def by (auto simp: case_prod_unfold intro: filter_cong)
  have p1: "keysToList kv' (''user:'' @ userId @ '':'') None = []"
    unfolding d4 d3 d2 keysToList_filter e1 by simp
  have p2: "keysToList kv' (''profile:'' @ userId) None = []"
    unfolding d4 d3 keysToList_filter e2 by simp
  have p3: "keysToList kv' (''log:interactions:'' @ userId) None = []"
    unfolding d4 keysToList_filter e3 by simp
  have act: "\<not> (startsWith k ''activity:'' \<and> truthy (kv_get kv' k)
                 \<and> js_prop (kv_get kv' k) ''creator'' = JStr userId)"
    if k: "k \<in> set (map fst kv')" for k
  proof
    assume a: "startsWith k ''activity:'' \<and> truthy (kv_get kv' k)
                 \<and> js_prop (kv_get kv' k) ''creator'' = JStr userId"
    from k have kD: "k \<notin> D" and kk: "k \<in> set (map fst kv)"
      unfolding all keys_filter by auto
    from kD have same: "kv_get kv' k = kv_get kv k"
      unfolding all by (rule kv_get_filter)
    from kk a have "k \<in> set (keysToList kv ''activity:'' None)"
      by (auto simp: keysToList_def afterCursor_def)
    with a same have "k \<in> set A"
      unfolding A_def collectActivityKeys_set by simp
    with kD show False by (simp add: D_def)
  qed
  show ?thesis
    unfolding userDataEmpty_def using p1 p2 p3 act by (simp add: list_all_iff)
qed

text \<open>
  Claim C9: purging twice in a row for the same user throws neither time, and
  the second call returns a count that is not negative: the first purge leaves
  no data of the user, so the second deletes nothing and returns \<open>0\<close>.
\<close>

theorem purge_twice:
  assumes "userId \<noteq> []"
  shows "\<exists>n kv'. purgeUserData userId (Some kv) = Inr (n, kv') \<and> 0 \<le> n
           \<and> userDataEmpty userId kv'
           \<and> purgeUserData userId (Some kv') = Inr (0, kv')"
proof -
  from purgeUserData_result [OF assms, of kv] obtain n kv' where
    p1: "purgeUserData userId (Some kv) = Inr (n, kv')" and n: "0 \<le> n" by blast
  have e: "userDataEmpty userId kv'" using assms p1 by (rule purgeUserData_leaves_nothing)
  from purgeUserData_empty [OF assms e] p1 n e show ?thesis by blast
qed

text \<open>
  The sample store: the first purge for user 42 deletes five keys, the second
  none.
\<close>

theorem purge_twice_witness:
  "''42'' \<noteq> []
   \<and> purgeUserData ''42'' (Some sampleStore) =
       Inr (5, [(''activity:act_2'', JObj [(''creator'', JStr ''7'')])])
   \<and> purgeUserData ''42'' (Some [(''activity:act_2'', JObj [(''creator'', JStr ''7'')])]) =
       Inr (0, [(''activity:act_2'', JObj [(''creator'', JStr ''7'')])])"
proof -
  have h: "''42'' \<noteq> []" by simp
  have first: "purgeUserData ''42'' (Some sampleStore) =
         Inr (5, [(''activity:act_2'', JObj [(''creator'', JStr ''7'')])])"
    by code_simp
  from purge_twice [OF h, of sampleStore] first
  have "purgeUserData ''42'' (Some [(''activity:act_2'', JObj [(''creator'', JStr ''7'')])]) =
       Inr (0, [(''activity:act_2'', JObj [(''creator'', JStr ''7'')])])"
    by auto
  with h first show ?thesis by blast
qed

end
